theory Spec2Isabelle
  imports Main "HOL-Library.Word" "HOL-Library.Signed_Division"
begin

unbundle bit_operations_syntax

section \<open>The KNI device of PcapPlusPlus (Pcap++/src/KniDevice.cpp)\<close>

text \<open>
  A shallow embedding of \<^verbatim>\<open>KniDevice.cpp\<close>. The C++ object and everything it talks to
  (the Linux ioctl socket, the DPDK KNI engine, pthreads, the clock, the logger) live in
  one record that every member function takes and returns. What the outside world
  answers is not computed here: each external primitive has a reply function, indexed by
  the number of calls made so far, and a trace of the calls made. A theorem that holds for
  every reply function holds for every kernel and every engine.
\<close>

subsection \<open>Enumerations and plain data\<close>

text \<open>
  Modelled from the spec: the enumerations of \<^verbatim>\<open>KniDevice.h\<close> (the header is not part of
  the sources). Only the names are used, except where the source casts an integer:
  \<^verbatim>\<open>KniLinkState(req.ifr_flags & IFF_UP)\<close> needs \<open>LINK_DOWN = 0\<close> and \<open>LINK_UP = 1\<close>.
\<close>

datatype KniLinkState = LINK_NOT_SUPPORTED | LINK_ERROR | LINK_DOWN | LINK_UP

datatype KniInfoState = INFO_CACHED | INFO_RENEW

datatype KniPromiscuousMode = PROMISC_DISABLE | PROMISC_ENABLE

datatype KniThreadCleanupState = JOINABLE | DETACHED | INVALID

text \<open>The two thread entry points of the file, \<^verbatim>\<open>runCapture\<close> and \<^verbatim>\<open>runRequests\<close>.\<close>

datatype threadMain = RunCapture | RunRequests

record KniThread =
  m_Descriptor :: nat
  m_State :: KniThreadCleanupState

text \<open>
  Modelled from the spec: \<^verbatim>\<open>MacAddress\<close> (MacAddress.h is not part of the sources): six
  bytes and the type's own validity predicate, \<^verbatim>\<open>isValid()\<close>.
\<close>

record MacAddress =
  mac_bytes :: "8 word list"
  isValid :: bool

definition MacAddress_Zero :: MacAddress where
  "MacAddress_Zero = \<lparr>mac_bytes = [0, 0, 0, 0, 0, 0], isValid = True\<rparr>"

text \<open>\<^verbatim>\<open>MacAddress(uint8_t* addr)\<close>: the six bytes at \<open>addr\<close>.\<close>

definition MacAddress_of_bytes :: "8 word list \<Rightarrow> MacAddress" where
  "MacAddress_of_bytes bs = \<lparr>mac_bytes = take 6 bs, isValid = True\<rparr>"

record timeval =
  tv_sec :: int
  tv_usec :: int

text \<open>An engine buffer (\<^verbatim>\<open>struct rte_mbuf*\<close>) and an engine handle (\<^verbatim>\<open>struct rte_kni*\<close>)
  are addresses; \<open>None\<close> is the null pointer.\<close>

type_synonym rte_mbuf = nat
type_synonym rte_kni = nat
type_synonym rte_mempool = nat

text \<open>
  Modelled from the spec: \<^verbatim>\<open>MBufRawPacket\<close> (MBufRawPacket.cpp is not part of the
  sources), the slot that holds one engine buffer: the buffer, the free-on-drop flag that
  \<^verbatim>\<open>setFreeMbuf\<close> writes, and the timestamp that \<^verbatim>\<open>setMBuf\<close> stamps. A fresh slot holds no
  buffer and owns what it will hold.
\<close>

record MBufRawPacket =
  m_MBuf :: "rte_mbuf option"
  m_FreeMbuf :: bool
  m_TimeStamp :: timeval

definition MBufRawPacket_new :: MBufRawPacket where
  "MBufRawPacket_new = \<lparr>m_MBuf = None, m_FreeMbuf = True, m_TimeStamp = \<lparr>tv_sec = 0, tv_usec = 0\<rparr>\<rparr>"

definition setMBuf :: "rte_mbuf \<Rightarrow> timeval \<Rightarrow> MBufRawPacket \<Rightarrow> MBufRawPacket" where
  "setMBuf mBuf time p = p\<lparr>m_MBuf := Some mBuf, m_TimeStamp := time\<rparr>"

definition setFreeMbuf :: "bool \<Rightarrow> MBufRawPacket \<Rightarrow> MBufRawPacket" where
  "setFreeMbuf val p = p\<lparr>m_FreeMbuf := val\<rparr>"

definition getMBuf :: "MBufRawPacket \<Rightarrow> rte_mbuf option" where
  "getMBuf p = m_MBuf p"

text \<open>
  A raw packet is engine-native (\<^verbatim>\<open>getObjectType() == MBUFRAWPACKET_OBJECT_TYPE\<close>) or
  foreign (any other \<^verbatim>\<open>RawPacket\<close>, here its payload). A \<^verbatim>\<open>Packet\<close> wraps a raw packet.
\<close>

datatype RawPacket = MBUFRAWPACKET MBufRawPacket | RAWPACKET "8 word list"

record Packet =
  m_RawPacket :: "RawPacket option"
  m_FreeRawPacket :: bool

definition Packet_new :: Packet where
  "Packet_new = \<lparr>m_RawPacket = None, m_FreeRawPacket = True\<rparr>"

definition setRawPacket :: "RawPacket \<Rightarrow> bool \<Rightarrow> Packet \<Rightarrow> Packet" where
  "setRawPacket rawPacket freeRawPacketAfterParserDestructed p =
     p\<lparr>m_RawPacket := Some rawPacket, m_FreeRawPacket := freeRawPacketAfterParserDestructed\<rparr>"

subsection \<open>The kernel interface socket\<close>

datatype ioctl = SIOCGIFFLAGS | SIOCSIFFLAGS | SIOCGIFHWADDR | SIOCSIFHWADDR | SIOCGIFMTU | SIOCSIFMTU

text \<open>
  \<^verbatim>\<open>struct ifreq\<close>. In C the three payloads share one union; every function below clears
  the request and then uses one of them only, so they are separate fields here.
  \<^verbatim>\<open>ifr_flags\<close> is a \<^verbatim>\<open>short\<close>, \<^verbatim>\<open>ifr_mtu\<close> an \<^verbatim>\<open>int\<close>.
\<close>

record ifreq =
  ifr_flags :: "16 word"
  ifr_hwaddr_sa_family :: "16 word"
  ifr_hwaddr_sa_data :: "8 word list"
  ifr_mtu :: "32 word"

definition ifreq_zero :: ifreq where
  "ifreq_zero = \<lparr>ifr_flags = 0, ifr_hwaddr_sa_family = 0, ifr_hwaddr_sa_data = replicate 14 0, ifr_mtu = 0\<rparr>"

definition IFF_UP :: "16 word" where
  "IFF_UP = 0x1"

definition IFF_PROMISC :: "16 word" where
  "IFF_PROMISC = 0x100"

definition ARPHRD_ETHER :: "16 word" where
  "ARPHRD_ETHER = 1"

datatype log_record = LOG_ERROR string | LOG_DEBUG string

record KniDeviceConfiguration =
  conf_name :: string
  conf_portId :: "16 word"
  conf_mtu :: "16 word"
  conf_mac :: "MacAddress option"
  conf_kthreadCoreId :: "32 word"
  conf_bindKthread :: bool

record KniDeviceInfo =
  link :: KniLinkState
  promisc :: KniPromiscuousMode
  portId :: "16 word"
  mtu :: "16 word"
  name :: string
  mac :: MacAddress

text \<open>
  The capture callback \<^verbatim>\<open>OnKniPacketArriveCallback\<close>: it sees the burst and the user
  cookie and answers whether capture goes on. A C callback may keep state of its own, so
  the model also hands it the number of times it has been called before.
\<close>

type_synonym OnKniPacketArriveCallback = "nat \<Rightarrow> MBufRawPacket list \<Rightarrow> nat \<Rightarrow> bool"

text \<open>
  The device and its surroundings. The fields named \<open>m_...\<close> are the members of the C++
  object (\<open>m_Capturing_thread\<close> is \<^verbatim>\<open>m_Capturing.thread\<close>, and so on); a thread pointer is
  an address into \<open>heap\<close>, the \<^verbatim>\<open>KniThread\<close> objects now allocated, so that a pointer can be
  null (\<open>None\<close>), live, or dangling (an address the heap no longer holds). The rest is the
  outside world: for each external primitive its replies and the trace of its calls.
  The clock of \<^verbatim>\<open>clockGetTime\<close> answers two C \<^verbatim>\<open>long\<close> values, 64 bits wide on the Linux
  targets of this file. \<open>stack_overrun\<close> lists the writes behind the end of a stack array:
  the cells the array has and the cells that were written.
\<close>

record KniDevice =
  m_Device :: "rte_kni option"
  m_MBufMempool :: "rte_mempool option"
  m_DeviceInfo :: KniDeviceInfo
  m_DeviceOpened :: bool
  m_Capturing_callback :: "OnKniPacketArriveCallback option"
  m_Capturing_userCookie :: nat
  m_Capturing_thread :: "nat option"
  m_Requests_thread :: "nat option"
  m_Requests_sleepS :: int
  m_Requests_sleepNs :: int
  heap :: "nat \<Rightarrow> KniThread option"
  heap_next :: nat
  log :: "log_record list"
  soc_reply :: "nat \<Rightarrow> ioctl \<Rightarrow> ifreq \<Rightarrow> bool \<times> ifreq"
  soc_trace :: "(ioctl \<times> ifreq) list"
  has_update_link :: bool
  update_link_reply :: "nat \<Rightarrow> KniLinkState"
  update_link_trace :: "KniLinkState list"
  rx_reply :: "nat \<Rightarrow> rte_mbuf list"
  rx_trace :: "nat list"
  tx_reply :: "nat \<Rightarrow> nat"
  tx_trace :: "rte_mbuf option list list"
  pool_create_reply :: "nat \<Rightarrow> int \<Rightarrow> rte_mempool option"
  kni_alloc_reply :: "rte_kni option"
  pthread_create_reply :: "nat \<Rightarrow> int"
  pthread_create_trace :: "threadMain list"
  pthread_detach_reply :: "nat \<Rightarrow> int"
  pthread_detach_trace :: "nat list"
  pthread_join_reply :: "nat \<Rightarrow> int"
  pthread_join_trace :: "nat list"
  pthread_cancel_reply :: "nat \<Rightarrow> int"
  pthread_cancel_trace :: "nat list"
  pthread_testcancel_reply :: "nat \<Rightarrow> bool"
  pthread_testcancel_trace :: nat
  gettimeofday_reply :: "nat \<Rightarrow> timeval"
  gettimeofday_trace :: nat
  clockGetTime_reply :: "nat \<Rightarrow> 64 word \<times> 64 word"
  clockGetTime_trace :: nat
  callback_trace :: nat
  init_reply :: "nat \<Rightarrow> rte_mbuf option"
  init_trace :: nat
  mbuf_free_trace :: "rte_mbuf list"
  stack_overrun :: "(nat \<times> nat) list"

definition LOG :: "log_record \<Rightarrow> KniDevice \<Rightarrow> KniDevice" where
  "LOG r s = s\<lparr>log := log s @ [r]\<rparr>"

text \<open>
  Modelled from the spec: \<^verbatim>\<open>KernelIfaceCtl.request(name, op, inout) -> ok\<close>, in the source
  \<^verbatim>\<open>m_DeviceInfo.soc.makeRequest(name, op, &req)\<close> (LinuxNicInformationSocket.cpp is not
  part of the sources). The kernel answers the n-th request with \<open>soc_reply n\<close>: whether it
  succeeded, and the request as the kernel left it.
\<close>

definition makeRequest :: "ioctl \<Rightarrow> ifreq \<Rightarrow> KniDevice \<Rightarrow> (bool \<times> ifreq) \<times> KniDevice" where
  "makeRequest op req s =
     (soc_reply s (length (soc_trace s)) op req, s\<lparr>soc_trace := soc_trace s @ [(op, req)]\<rparr>)"

subsection \<open>Attribute getters and setters\<close>

definition init :: "KniDeviceConfiguration \<Rightarrow> KniDeviceInfo" where
  "init conf =
     \<lparr>link = LINK_NOT_SUPPORTED,
      promisc = PROMISC_DISABLE,
      portId = conf_portId conf,
      mtu = conf_mtu conf,
      name = conf_name conf,
      mac = (case conf_mac conf of Some m \<Rightarrow> m | None \<Rightarrow> MacAddress_Zero)\<rparr>"

definition getLinkState :: "KniInfoState \<Rightarrow> KniDevice \<Rightarrow> KniLinkState \<times> KniDevice" where
  "getLinkState state s =
     (if state = INFO_CACHED then (link (m_DeviceInfo s), s)
      else
        (case makeRequest SIOCGIFFLAGS ifreq_zero s of
           ((ok, req), s1) \<Rightarrow>
             if \<not> ok then
               (link (m_DeviceInfo s1),
                LOG (LOG_DEBUG ''Last known link state for device is returned'')
                  (LOG (LOG_ERROR ''DPDK KNI failed to obtain interface link state from Linux'') s1))
             else
               (let l = (if ifr_flags req AND IFF_UP = 0 then LINK_DOWN else LINK_UP)
                in (l, s1\<lparr>m_DeviceInfo := (m_DeviceInfo s1)\<lparr>link := l\<rparr>\<rparr>))))"

definition getMacAddress :: "KniInfoState \<Rightarrow> KniDevice \<Rightarrow> MacAddress \<times> KniDevice" where
  "getMacAddress state s =
     (if state = INFO_CACHED then (mac (m_DeviceInfo s), s)
      else
        (case makeRequest SIOCGIFHWADDR (ifreq_zero\<lparr>ifr_hwaddr_sa_family := ARPHRD_ETHER\<rparr>) s of
           ((ok, req), s1) \<Rightarrow>
             if \<not> ok then
               (mac (m_DeviceInfo s1),
                LOG (LOG_DEBUG ''Last known MAC address for device is returned'')
                  (LOG (LOG_ERROR ''DPDK KNI failed to obtain MAC address from Linux'') s1))
             else
               (let m = MacAddress_of_bytes (ifr_hwaddr_sa_data req)
                in (m, s1\<lparr>m_DeviceInfo := (m_DeviceInfo s1)\<lparr>mac := m\<rparr>\<rparr>))))"

definition getMtu :: "KniInfoState \<Rightarrow> KniDevice \<Rightarrow> 16 word \<times> KniDevice" where
  "getMtu state s =
     (if state = INFO_CACHED then (mtu (m_DeviceInfo s), s)
      else
        (case makeRequest SIOCGIFMTU ifreq_zero s of
           ((ok, req), s1) \<Rightarrow>
             if \<not> ok then
               (mtu (m_DeviceInfo s1),
                LOG (LOG_DEBUG ''Last known MTU for device is returned'')
                  (LOG (LOG_ERROR ''DPDK KNI failed to obtain interface MTU from Linux'') s1))
             else
               (let m = (ucast (ifr_mtu req) :: 16 word)
                in (m, s1\<lparr>m_DeviceInfo := (m_DeviceInfo s1)\<lparr>mtu := m\<rparr>\<rparr>))))"

definition getPromiscuous :: "KniInfoState \<Rightarrow> KniDevice \<Rightarrow> KniPromiscuousMode \<times> KniDevice" where
  "getPromiscuous state s =
     (if state = INFO_CACHED then (promisc (m_DeviceInfo s), s)
      else
        (case makeRequest SIOCGIFFLAGS ifreq_zero s of
           ((ok, req), s1) \<Rightarrow>
             if \<not> ok then
               (promisc (m_DeviceInfo s1),
                LOG (LOG_DEBUG ''Last known Promiscuous mode for device is returned'')
                  (LOG (LOG_ERROR ''DPDK KNI failed to obtain interface Promiscuous mode from Linux'') s1))
             else
               (let p = (if ifr_flags req AND IFF_PROMISC \<noteq> 0 then PROMISC_ENABLE else PROMISC_DISABLE)
                in (p, s1\<lparr>m_DeviceInfo := (m_DeviceInfo s1)\<lparr>promisc := p\<rparr>\<rparr>))))"

definition setLinkState :: "KniLinkState \<Rightarrow> KniDevice \<Rightarrow> bool \<times> KniDevice" where
  "setLinkState state s =
     (if \<not> (state = LINK_DOWN \<or> state = LINK_UP) then (False, s)
      else
        (case makeRequest SIOCGIFFLAGS ifreq_zero s of
           ((ok, req), s1) \<Rightarrow>
             if \<not> ok then
               (False, LOG (LOG_ERROR ''DPDK KNI failed to obtain interface flags from Linux'') s1)
             else if (state = LINK_DOWN \<and> ifr_flags req AND IFF_UP \<noteq> 0) \<or>
                     (state = LINK_UP \<and> \<not> (ifr_flags req AND IFF_UP \<noteq> 0)) then
               (case makeRequest SIOCSIFFLAGS (req\<lparr>ifr_flags := ifr_flags req XOR IFF_UP\<rparr>) s1 of
                  ((ok2, req2), s2) \<Rightarrow>
                    if \<not> ok2 then (False, LOG (LOG_ERROR ''DPDK KNI failed to set link mode'') s2)
                    else (True, s2\<lparr>m_DeviceInfo := (m_DeviceInfo s2)\<lparr>link := state\<rparr>\<rparr>))
             else (True, s1\<lparr>m_DeviceInfo := (m_DeviceInfo s1)\<lparr>link := state\<rparr>\<rparr>)))"

definition setMacAddress :: "MacAddress \<Rightarrow> KniDevice \<Rightarrow> bool \<times> KniDevice" where
  "setMacAddress m s =
     (if \<not> isValid m then (False, s)
      else
        (case makeRequest SIOCSIFHWADDR
                (ifreq_zero\<lparr>ifr_hwaddr_sa_family := ARPHRD_ETHER,
                            ifr_hwaddr_sa_data := take 6 (mac_bytes m) @ replicate 8 0\<rparr>) s of
           ((ok, req), s1) \<Rightarrow>
             if \<not> ok then (False, LOG (LOG_ERROR ''DPDK KNI failed to set MAC address'') s1)
             else (True, s1\<lparr>m_DeviceInfo := (m_DeviceInfo s1)\<lparr>mac := m\<rparr>\<rparr>)))"

definition setMtu :: "16 word \<Rightarrow> KniDevice \<Rightarrow> bool \<times> KniDevice" where
  "setMtu m s =
     (case makeRequest SIOCSIFMTU (ifreq_zero\<lparr>ifr_mtu := ucast m\<rparr>) s of
        ((ok, req), s1) \<Rightarrow>
          if \<not> ok then (False, LOG (LOG_ERROR ''DPDK KNI failed to set interface MTU'') s1)
          else (True, s1\<lparr>m_DeviceInfo := (m_DeviceInfo s1)\<lparr>mtu := m\<rparr>\<rparr>))"

definition setPromiscuous :: "KniPromiscuousMode \<Rightarrow> KniDevice \<Rightarrow> bool \<times> KniDevice" where
  "setPromiscuous mode s =
     (if \<not> (mode = PROMISC_DISABLE \<or> mode = PROMISC_ENABLE) then (False, s)
      else
        (case makeRequest SIOCGIFFLAGS ifreq_zero s of
           ((ok, req), s1) \<Rightarrow>
             if \<not> ok then
               (False, LOG (LOG_ERROR ''DPDK KNI failed to obtain interface flags from Linux'') s1)
             else if (mode = PROMISC_DISABLE \<and> ifr_flags req AND IFF_PROMISC \<noteq> 0) \<or>
                     (mode = PROMISC_ENABLE \<and> \<not> (ifr_flags req AND IFF_PROMISC \<noteq> 0)) then
               (case makeRequest SIOCSIFFLAGS (req\<lparr>ifr_flags := ifr_flags req XOR IFF_PROMISC\<rparr>) s1 of
                  ((ok2, req2), s2) \<Rightarrow>
                    if \<not> ok2 then (False, LOG (LOG_ERROR ''DPDK KNI failed to set link mode'') s2)
                    else (True, s2\<lparr>m_DeviceInfo := (m_DeviceInfo s2)\<lparr>promisc := mode\<rparr>\<rparr>))
             else (True, s1\<lparr>m_DeviceInfo := (m_DeviceInfo s1)\<lparr>promisc := mode\<rparr>\<rparr>)))"

subsection \<open>Faults\<close>

text \<open>
  Where the C++ would dereference a null engine handle, call a null callback, read the raw
  packet of a \<^verbatim>\<open>Packet\<close> that has none, or touch a \<^verbatim>\<open>KniThread\<close> that has been deleted, the
  model stops with a fault instead of a result.
\<close>

datatype fault = NullHandle | NullCallback | NullRawPacket | UseAfterFree

subsection \<open>Threads\<close>

text \<open>
  \<^verbatim>\<open>new KniThread(s, tm, data)\<close>: the object is allocated at a fresh address and the
  constructor runs. \<^verbatim>\<open>pthread_create\<close> and \<^verbatim>\<open>pthread_detach\<close> answer with an error number;
  the descriptor of the thread is the number of the \<^verbatim>\<open>pthread_create\<close> call.
\<close>

definition KniThread_new :: "KniThreadCleanupState \<Rightarrow> threadMain \<Rightarrow> KniDevice \<Rightarrow> nat \<times> KniDevice" where
  "KniThread_new st tm s =
     (let a = heap_next s;
          d = length (pthread_create_trace s);
          err = pthread_create_reply s d;
          s1 = s\<lparr>heap_next := Suc a, pthread_create_trace := pthread_create_trace s @ [tm]\<rparr>
      in if err \<noteq> 0 then
           (a, (LOG (LOG_ERROR ''KNI can not start pthread. pthread_create returned an error'') s1)
                 \<lparr>heap := (heap s1)(a \<mapsto> \<lparr>m_Descriptor = d, m_State = INVALID\<rparr>)\<rparr>)
         else if st = DETACHED then
           (let err2 = pthread_detach_reply s1 (length (pthread_detach_trace s1));
                s2 = s1\<lparr>pthread_detach_trace := pthread_detach_trace s1 @ [d]\<rparr>
            in if err2 \<noteq> 0 then
                 (a, (LOG (LOG_ERROR ''KNI can not detach pthread. pthread_detach returned an error'') s2)
                       \<lparr>heap := (heap s2)(a \<mapsto> \<lparr>m_Descriptor = d, m_State = INVALID\<rparr>)\<rparr>)
               else (a, s2\<lparr>heap := (heap s2)(a \<mapsto> \<lparr>m_Descriptor = d, m_State = st\<rparr>)\<rparr>))
         else (a, s1\<lparr>heap := (heap s1)(a \<mapsto> \<lparr>m_Descriptor = d, m_State = st\<rparr>)\<rparr>))"

text \<open>\<^verbatim>\<open>delete thread\<close> on a non-null pointer: the destructor joins a joinable thread, then
  the object is gone from the heap.\<close>

definition KniThread_delete :: "nat \<Rightarrow> KniDevice \<Rightarrow> fault + KniDevice" where
  "KniThread_delete a s =
     (case heap s a of
        None \<Rightarrow> Inl UseAfterFree
      | Some t \<Rightarrow>
          (let s1 =
             (if m_State t = JOINABLE then
                (let err = pthread_join_reply s (length (pthread_join_trace s));
                     s' = s\<lparr>pthread_join_trace := pthread_join_trace s @ [m_Descriptor t]\<rparr>
                 in if err \<noteq> 0 then
                      LOG (LOG_DEBUG ''KNI failed to join pthread. pthread_join returned an error'') s'
                    else s')
              else s)
           in Inr (s1\<lparr>heap := (heap s1)(a := None)\<rparr>)))"

definition cancel :: "nat \<Rightarrow> KniDevice \<Rightarrow> fault + (bool \<times> KniDevice)" where
  "cancel a s =
     (case heap s a of
        None \<Rightarrow> Inl UseAfterFree
      | Some t \<Rightarrow>
          Inr (pthread_cancel_reply s (length (pthread_cancel_trace s)) \<noteq> 0,
               s\<lparr>pthread_cancel_trace := pthread_cancel_trace s @ [m_Descriptor t]\<rparr>))"

subsection \<open>Link state on the engine side, open and close\<close>

text \<open>
  Modelled from the spec: the engine primitive \<^verbatim>\<open>updateLink(handle, state) -> prev\<close>, in the
  source \<^verbatim>\<open>(KniLinkState)rte_kni_update_link(kni, state)\<close>: the engine answers with the
  previous link state or with \<open>LINK_ERROR\<close>.
\<close>

definition rte_kni_update_link :: "KniLinkState \<Rightarrow> KniDevice \<Rightarrow> KniLinkState \<times> KniDevice" where
  "rte_kni_update_link state s =
     (update_link_reply s (length (update_link_trace s)),
      s\<lparr>update_link_trace := update_link_trace s @ [state]\<rparr>)"

text \<open>\<open>has_update_link\<close> is the compile-time test \<^verbatim>\<open>RTE_VERSION >= RTE_VERSION_NUM(18, 11, 0, 0)\<close>.\<close>

definition setKniDeviceLinkState :: "rte_kni option \<Rightarrow> KniLinkState \<Rightarrow> KniDevice \<Rightarrow> KniLinkState \<times> KniDevice" where
  "setKniDeviceLinkState kni state s =
     (if kni = None \<or> \<not> (state = LINK_UP \<or> state = LINK_DOWN) then (LINK_ERROR, s)
      else if has_update_link s then
        (case rte_kni_update_link state s of
           (oldState, s1) \<Rightarrow>
             if oldState = LINK_ERROR then
               (oldState, LOG (LOG_DEBUG ''DPDK KNI Failed to update links state for device'') s1)
             else (oldState, s1))
      else (LINK_NOT_SUPPORTED, s))"

definition updateLinkState :: "KniLinkState \<Rightarrow> KniDevice \<Rightarrow> KniLinkState \<times> KniDevice" where
  "updateLinkState state s =
     (case setKniDeviceLinkState (m_Device s) state s of
        (oldState, s1) \<Rightarrow>
          if oldState \<noteq> LINK_NOT_SUPPORTED \<and> oldState \<noteq> LINK_ERROR then
            (oldState, s1\<lparr>m_DeviceInfo := (m_DeviceInfo s1)\<lparr>link := state\<rparr>\<rparr>)
          else (oldState, s1))"

text \<open>
  \<^verbatim>\<open>KniDevice::open\<close>. The result of \<^verbatim>\<open>updateLinkState\<close> is discarded (\<^verbatim>\<open>(void)\<close>) and the
  \<^verbatim>\<open>switch\<close> reads the cached \<^verbatim>\<open>m_DeviceInfo.link\<close>.
\<close>

definition "open" :: "KniDevice \<Rightarrow> bool \<times> KniDevice" where
  "open s =
     (if m_DeviceOpened s then (False, LOG (LOG_ERROR ''KNI device is already opened'') s)
      else
        (case updateLinkState LINK_UP s of
           (discarded, s1) \<Rightarrow>
             (case link (m_DeviceInfo s1) of
                LINK_ERROR \<Rightarrow> (False, s1\<lparr>m_DeviceOpened := False\<rparr>)
              | LINK_NOT_SUPPORTED \<Rightarrow> (True, s1\<lparr>m_DeviceOpened := True\<rparr>)
              | LINK_DOWN \<Rightarrow> (True, s1\<lparr>m_DeviceOpened := True\<rparr>)
              | LINK_UP \<Rightarrow> (True, s1\<lparr>m_DeviceOpened := True\<rparr>))))"

text \<open>\<^verbatim>\<open>KniCapturing::cleanup\<close> and \<^verbatim>\<open>KniRequests::cleanup\<close>; the null cookie is 0.\<close>

definition Capturing_cleanup :: "KniDevice \<Rightarrow> fault + KniDevice" where
  "Capturing_cleanup s =
     (case m_Capturing_thread s of
        None \<Rightarrow>
          Inr (s\<lparr>m_Capturing_thread := None, m_Capturing_callback := None, m_Capturing_userCookie := 0\<rparr>)
      | Some a \<Rightarrow>
          (case cancel a s of
             Inl f \<Rightarrow> Inl f
           | Inr (r, s1) \<Rightarrow>
               (case KniThread_delete a s1 of
                  Inl f \<Rightarrow> Inl f
                | Inr s2 \<Rightarrow>
                    Inr (s2\<lparr>m_Capturing_thread := None, m_Capturing_callback := None,
                            m_Capturing_userCookie := 0\<rparr>))))"

definition Requests_cleanup :: "KniDevice \<Rightarrow> fault + KniDevice" where
  "Requests_cleanup s =
     (case m_Requests_thread s of
        None \<Rightarrow> Inr (s\<lparr>m_Requests_thread := None, m_Requests_sleepS := 0, m_Requests_sleepNs := 0\<rparr>)
      | Some a \<Rightarrow>
          (case cancel a s of
             Inl f \<Rightarrow> Inl f
           | Inr (r, s1) \<Rightarrow>
               (case KniThread_delete a s1 of
                  Inl f \<Rightarrow> Inl f
                | Inr s2 \<Rightarrow>
                    Inr (s2\<lparr>m_Requests_thread := None, m_Requests_sleepS := 0, m_Requests_sleepNs := 0\<rparr>))))"

definition close :: "KniDevice \<Rightarrow> fault + KniDevice" where
  "close s =
     (case (if m_Capturing_thread s \<noteq> None then Capturing_cleanup s else Inr s) of
        Inl f \<Rightarrow> Inl f
      | Inr s1 \<Rightarrow>
          (case updateLinkState LINK_DOWN s1 of
             (oldState, s2) \<Rightarrow> Inr (s2\<lparr>m_DeviceOpened := False\<rparr>)))"

text \<open>
  The constructor. \<open>w\<close> is the world the device is built in: only its replies and traces
  are read, every member is set here (\<^verbatim>\<open>m_DeviceOpened\<close> by the base class \<^verbatim>\<open>IDevice\<close>).
  \<open>pool_create_reply\<close> is what \<^verbatim>\<open>rte_pktmbuf_pool_create\<close> answers for this size and
  uniqueness tag, \<open>kni_alloc_reply\<close> what \<^verbatim>\<open>rte_kni_alloc\<close> answers.
\<close>

definition KniDevice_ctor :: "KniDeviceConfiguration \<Rightarrow> nat \<Rightarrow> int \<Rightarrow> KniDevice \<Rightarrow> KniDevice" where
  "KniDevice_ctor conf mempoolSize unique w =
     (let s = w\<lparr>m_Device := None, m_MBufMempool := None, m_DeviceInfo := init conf,
                m_DeviceOpened := False,
                m_Capturing_callback := None, m_Capturing_userCookie := 0, m_Capturing_thread := None,
                m_Requests_thread := None, m_Requests_sleepS := 0, m_Requests_sleepNs := 0\<rparr>
      in case pool_create_reply s mempoolSize unique of
           None \<Rightarrow> LOG (LOG_ERROR ''Failed to create packets memory pool for KNI device'') s
         | Some pool \<Rightarrow>
             (let s1 = (LOG (LOG_DEBUG ''Successfully initialized packets pool for KNI device'') s)
                         \<lparr>m_MBufMempool := Some pool\<rparr>;
                  s2 = s1\<lparr>m_Device := kni_alloc_reply s1\<rparr>
              in if m_Device s2 = None then
                   LOG (LOG_ERROR ''DPDK have failed to create KNI device'') s2
                 else s2))"

subsection \<open>The request handler thread\<close>

definition startRequestHandlerThread :: "int \<Rightarrow> int \<Rightarrow> KniDevice \<Rightarrow> fault + (bool \<times> KniDevice)" where
  "startRequestHandlerThread sleepSeconds sleepNanoSeconds s =
     (if m_Requests_thread s \<noteq> None then
        Inr (False, LOG (LOG_ERROR ''KNI request thread is already started for device'') s)
      else
        (case KniThread_new DETACHED RunRequests
                (s\<lparr>m_Requests_sleepS := sleepSeconds, m_Requests_sleepNs := sleepNanoSeconds\<rparr>) of
           (a, s1) \<Rightarrow>
             (let s2 = s1\<lparr>m_Requests_thread := Some a\<rparr>
              in case heap s2 a of
                   None \<Rightarrow> Inl UseAfterFree
                 | Some t \<Rightarrow>
                     if m_State t = INVALID then
                       (case Requests_cleanup s2 of
                          Inl f \<Rightarrow> Inl f
                        | Inr s3 \<Rightarrow> Inr (False, s3))
                     else Inr (True, s2))))"

definition stopRequestHandlerThread :: "KniDevice \<Rightarrow> fault + KniDevice" where
  "stopRequestHandlerThread s =
     (if m_Requests_thread s = None then
        Inr (LOG (LOG_DEBUG ''Attempt to stop not running KNI request thread for device'') s)
      else Requests_cleanup s)"

subsection \<open>Burst receive\<close>

definition MAX_BURST_SIZE :: nat where
  "MAX_BURST_SIZE = 64"

text \<open>
  Modelled from the spec: \<^verbatim>\<open>m_Capturing.isRunning()\<close> (defined in KniDevice.h, which is not
  part of the sources): a capture worker exists.
\<close>

definition isRunning :: "KniDevice \<Rightarrow> bool" where
  "isRunning s = (m_Capturing_thread s \<noteq> None)"

text \<open>
  Modelled from the spec: the engine primitive \<^verbatim>\<open>rxBurst(handle, out, cap) -> n\<close>, in the
  source \<^verbatim>\<open>rte_kni_rx_burst(kni, mbufs, num)\<close>. \<open>rx_reply s k\<close> is what the ring holds at the
  k-th poll; the engine hands over at most \<open>num\<close> of it, and \<open>rx_trace\<close> records the \<open>num\<close> of
  every poll. The primitive dereferences its handle.
\<close>

definition rte_kni_rx_burst :: "rte_kni option \<Rightarrow> nat \<Rightarrow> KniDevice \<Rightarrow> fault + (rte_mbuf list \<times> KniDevice)" where
  "rte_kni_rx_burst kni num s =
     (case kni of
        None \<Rightarrow> Inl NullHandle
      | Some h \<Rightarrow> Inr (take num (rx_reply s (length (rx_trace s))), s\<lparr>rx_trace := rx_trace s @ [num]\<rparr>))"

definition gettimeofday :: "KniDevice \<Rightarrow> timeval \<times> KniDevice" where
  "gettimeofday s =
     (gettimeofday_reply s (gettimeofday_trace s), s\<lparr>gettimeofday_trace := Suc (gettimeofday_trace s)\<rparr>)"

text \<open>The loop of \<^verbatim>\<open>receivePackets(MBufRawPacketVector&)\<close>: one new slot per buffer, pushed
  to the back of the vector.\<close>

function receivePackets_vec_loop ::
  "timeval \<Rightarrow> nat \<Rightarrow> nat \<Rightarrow> rte_mbuf list \<Rightarrow> MBufRawPacket list \<Rightarrow> MBufRawPacket list" where
  "receivePackets_vec_loop time numOfPktsReceived index mBufArray rawPacketsArr =
     (if index < numOfPktsReceived then
        receivePackets_vec_loop time numOfPktsReceived (Suc index) mBufArray
          (rawPacketsArr @ [setMBuf (mBufArray ! index) time MBufRawPacket_new])
      else rawPacketsArr)"
  by pat_completeness auto
termination
  by (relation "measure (\<lambda>(time, n, index, mBufArray, arr). n - index)") auto

declare receivePackets_vec_loop.simps [simp del]

definition receivePackets_vec ::
  "MBufRawPacket list \<Rightarrow> KniDevice \<Rightarrow> fault + (16 word \<times> MBufRawPacket list \<times> KniDevice)" where
  "receivePackets_vec rawPacketsArr s =
     (if \<not> m_DeviceOpened s then
        Inr (0, rawPacketsArr, LOG (LOG_ERROR ''KNI device is not opened'') s)
      else if isRunning s then
        Inr (0, rawPacketsArr,
             LOG (LOG_ERROR ''KNI device capture mode is currently running. Cannot receive packets in parallel'') s)
      else
        (case rte_kni_rx_burst (m_Device s) MAX_BURST_SIZE s of
           Inl f \<Rightarrow> Inl f
         | Inr (mBufArray, s1) \<Rightarrow>
             (let numOfPktsReceived = length mBufArray
              in if numOfPktsReceived \<le> 0 then Inr (0, rawPacketsArr, s1)
                 else
                   (case gettimeofday s1 of
                      (time, s2) \<Rightarrow>
                        Inr (of_nat numOfPktsReceived,
                             receivePackets_vec_loop time numOfPktsReceived 0 mBufArray rawPacketsArr,
                             s2)))))"

text \<open>
  The array variants take a pointer and a length. The memory behind the pointer is a
  function from the index to the cell (a cell holds a slot pointer, \<open>None\<close> when null); the
  cells from \<open>rawPacketArrLength\<close> on are whatever lies behind the caller's array.

  The buffer array on the stack, \<^verbatim>\<open>CPP_VLA(struct rte_mbuf*, rawPacketArrLength)\<close>, has
  \<open>rawPacketArrLength\<close> cells, and the engine is asked for \<open>MAX_BURST_SIZE\<close> buffers. When it
  hands over more buffers than the array has cells, it writes behind the end of the
  array, and the loop then reads these cells and writes behind the caller's array. C++
  leaves the behaviour of such a call undefined. The model records the overrun in
  \<open>stack_overrun\<close> (\<open>CPP_VLA_written\<close>) and goes on as the code does when the memory behind
  the two arrays takes the writes and nothing else is there to be damaged; what it
  answers for a call that records an overrun is therefore one possible outcome only.
\<close>

definition CPP_VLA_written :: "nat \<Rightarrow> nat \<Rightarrow> KniDevice \<Rightarrow> KniDevice" where
  "CPP_VLA_written cells written s =
     (if cells < written then s\<lparr>stack_overrun := stack_overrun s @ [(cells, written)]\<rparr> else s)"


function receivePackets_arr_loop ::
  "timeval \<Rightarrow> nat \<Rightarrow> nat \<Rightarrow> rte_mbuf list \<Rightarrow> (nat \<Rightarrow> MBufRawPacket option) \<Rightarrow> (nat \<Rightarrow> MBufRawPacket option)" where
  "receivePackets_arr_loop time packetsReceived index mBufArray rawPacketsArr =
     (if index < packetsReceived then
        receivePackets_arr_loop time packetsReceived (Suc index) mBufArray
          (rawPacketsArr(index :=
             Some (setMBuf (mBufArray ! index) time
                     (case rawPacketsArr index of None \<Rightarrow> MBufRawPacket_new | Some p \<Rightarrow> p))))
      else rawPacketsArr)"
  by pat_completeness auto
termination
  by (relation "measure (\<lambda>(time, n, index, mBufArray, arr). n - index)") auto

declare receivePackets_arr_loop.simps [simp del]

definition receivePackets_arr ::
  "(nat \<Rightarrow> MBufRawPacket option) option \<Rightarrow> 16 word \<Rightarrow> KniDevice \<Rightarrow>
     fault + (16 word \<times> (nat \<Rightarrow> MBufRawPacket option) option \<times> KniDevice)" where
  "receivePackets_arr rawPacketsArr rawPacketArrLength s =
     (if \<not> m_DeviceOpened s then
        Inr (0, rawPacketsArr, LOG (LOG_ERROR ''KNI device is not opened'') s)
      else if isRunning s then
        Inr (0, rawPacketsArr,
             LOG (LOG_ERROR ''KNI device capture mode is currently running. Cannot recieve packets in parallel'') s)
      else
        (case rawPacketsArr of
           None \<Rightarrow>
             Inr (0, rawPacketsArr, LOG (LOG_ERROR ''KNI Provided address of array to store packets is NULL'') s)
         | Some arr \<Rightarrow>
             (case rte_kni_rx_burst (m_Device s) MAX_BURST_SIZE s of
                Inl f \<Rightarrow> Inl f
              | Inr (mBufArray, s0) \<Rightarrow>
                  (let s1 = CPP_VLA_written (unat rawPacketArrLength) (length mBufArray) s0;
                       packetsReceived = (of_nat (length mBufArray) :: 16 word)
                   in if packetsReceived \<le> 0 then Inr (0, rawPacketsArr, s1)
                      else
                        (case gettimeofday s1 of
                           (time, s2) \<Rightarrow>
                             Inr (packetsReceived,
                                  Some (receivePackets_arr_loop time (unat packetsReceived) 0 mBufArray arr),
                                  s2))))))"

function receivePackets_pkt_loop ::
  "timeval \<Rightarrow> nat \<Rightarrow> nat \<Rightarrow> rte_mbuf list \<Rightarrow> (nat \<Rightarrow> Packet option) \<Rightarrow> (nat \<Rightarrow> Packet option)" where
  "receivePackets_pkt_loop time packetsReceived index mBufArray packetsArr =
     (if index < packetsReceived then
        receivePackets_pkt_loop time packetsReceived (Suc index) mBufArray
          (packetsArr(index :=
             Some (setRawPacket (MBUFRAWPACKET (setMBuf (mBufArray ! index) time MBufRawPacket_new)) True
                     (case packetsArr index of None \<Rightarrow> Packet_new | Some p \<Rightarrow> p))))
      else packetsArr)"
  by pat_completeness auto
termination
  by (relation "measure (\<lambda>(time, n, index, mBufArray, arr). n - index)") auto

declare receivePackets_pkt_loop.simps [simp del]

definition receivePackets_pkt ::
  "(nat \<Rightarrow> Packet option) \<Rightarrow> 16 word \<Rightarrow> KniDevice \<Rightarrow>
     fault + (16 word \<times> (nat \<Rightarrow> Packet option) \<times> KniDevice)" where
  "receivePackets_pkt packetsArr packetsArrLength s =
     (if \<not> m_DeviceOpened s then
        Inr (0, packetsArr, LOG (LOG_ERROR ''KNI device is not opened'') s)
      else if isRunning s then
        Inr (0, packetsArr,
             LOG (LOG_ERROR ''KNI device capture mode is currently running. Cannot recieve packets in parallel'') s)
      else
        (case rte_kni_rx_burst (m_Device s) MAX_BURST_SIZE s of
           Inl f \<Rightarrow> Inl f
         | Inr (mBufArray, s0) \<Rightarrow>
             (let s1 = CPP_VLA_written (unat packetsArrLength) (length mBufArray) s0;
                  packetsReceived = (of_nat (length mBufArray) :: 16 word)
              in if packetsReceived \<le> 0 then Inr (0, packetsArr, s1)
                 else
                   (case gettimeofday s1 of
                      (time, s2) \<Rightarrow>
                        Inr (packetsReceived,
                             receivePackets_pkt_loop time (unat packetsReceived) 0 mBufArray packetsArr,
                             s2)))))"

subsection \<open>Burst transmit\<close>

text \<open>
  Modelled from the spec: the engine primitive \<^verbatim>\<open>txBurst(handle, in, n) -> n\<close>, in the
  source \<^verbatim>\<open>rte_kni_tx_burst(kni, mbufs, num)\<close>: it returns the length of the prefix it
  enqueued, at most \<open>num\<close>; \<open>tx_reply s k\<close> is the room the ring has at the k-th call.
\<close>

definition rte_kni_tx_burst ::
  "rte_kni option \<Rightarrow> rte_mbuf option list \<Rightarrow> nat \<Rightarrow> KniDevice \<Rightarrow> fault + (nat \<times> KniDevice)" where
  "rte_kni_tx_burst kni mbufs num s =
     (case kni of
        None \<Rightarrow> Inl NullHandle
      | Some h \<Rightarrow>
          Inr (min num (tx_reply s (length (tx_trace s))), s\<lparr>tx_trace := tx_trace s @ [take num mbufs]\<rparr>))"

text \<open>
  Modelled from the spec: \<^verbatim>\<open>MBufRawPacket::initFromRawPacket(rawPacket, device)\<close> converts a
  foreign item into a freshly allocated engine buffer of the device's pool, and can fail;
  \<open>init_reply s k\<close> is the buffer the k-th conversion obtains, \<open>None\<close> when it fails.
  The destructor of a slot releases the buffer it holds when the slot owns it; the
  releases are recorded in \<open>mbuf_free_trace\<close>.
\<close>

definition initFromRawPacket :: "8 word list \<Rightarrow> MBufRawPacket \<Rightarrow> KniDevice \<Rightarrow> bool \<times> MBufRawPacket \<times> KniDevice" where
  "initFromRawPacket rawData pkt s =
     (case init_reply s (init_trace s) of
        None \<Rightarrow> (False, pkt, s\<lparr>init_trace := Suc (init_trace s)\<rparr>)
      | Some m \<Rightarrow> (True, pkt\<lparr>m_MBuf := Some m\<rparr>, s\<lparr>init_trace := Suc (init_trace s)\<rparr>))"

definition MBufRawPacket_delete :: "MBufRawPacket \<Rightarrow> KniDevice \<Rightarrow> KniDevice" where
  "MBufRawPacket_delete pkt s =
     (case m_MBuf pkt of
        None \<Rightarrow> s
      | Some m \<Rightarrow> if m_FreeMbuf pkt then s\<lparr>mbuf_free_trace := mbuf_free_trace s @ [m]\<rparr> else s)"

text \<open>
  The marking loop of the two array variants,
  \<^verbatim>\<open>for (uint16_t i = 0; i < arrLength; ++i) arr[i]->setFreeMbuf(i >= packetsSent);\<close>
  with a 16-bit \<open>arrLength\<close>: the counter cannot wrap, so it is a natural number.
\<close>

function sendPackets_mark_loop ::
  "nat \<Rightarrow> nat \<Rightarrow> 16 word \<Rightarrow> (nat \<Rightarrow> MBufRawPacket) \<Rightarrow> (nat \<Rightarrow> MBufRawPacket)" where
  "sendPackets_mark_loop i arrLength packetsSent arr =
     (if i < arrLength then
        sendPackets_mark_loop (Suc i) arrLength packetsSent
          (arr(i := setFreeMbuf (unat packetsSent \<le> i) (arr i)))
      else arr)"
  by pat_completeness auto
termination
  by (relation "measure (\<lambda>(i, n, sent, arr). n - i)") auto

declare sendPackets_mark_loop.simps [simp del]

text \<open>\<^verbatim>\<open>sendPackets(MBufRawPacket** rawPacketsArr, uint16_t arrLength)\<close>. The slots behind
  the pointer are distinct objects, held by value.\<close>

definition sendPackets_arr ::
  "(nat \<Rightarrow> MBufRawPacket) \<Rightarrow> 16 word \<Rightarrow> KniDevice \<Rightarrow>
     fault + (16 word \<times> (nat \<Rightarrow> MBufRawPacket) \<times> KniDevice)" where
  "sendPackets_arr rawPacketsArr arrLength s =
     (if \<not> m_DeviceOpened s then
        Inr (0, rawPacketsArr, LOG (LOG_ERROR ''KNI device is not opened'') s)
      else
        (let mBufArray = map (\<lambda>i. getMBuf (rawPacketsArr i)) [0..<unat arrLength]
         in case rte_kni_tx_burst (m_Device s) mBufArray (unat arrLength) s of
              Inl f \<Rightarrow> Inl f
            | Inr (sent, s1) \<Rightarrow>
                (let packetsSent = (of_nat sent :: 16 word)
                 in Inr (packetsSent,
                         sendPackets_mark_loop 0 (unat arrLength) packetsSent rawPacketsArr,
                         s1))))"

text \<open>
  The converting variants build three stack arrays. \<open>mBufRawPacketArr\<close> holds, per index,
  the slot that is sent: the caller's own slot when the item is engine-native, a slot
  allocated here when it is foreign. \<open>allocated\<close> lists the slots allocated here, as the
  indices of \<open>mBufRawPacketArr\<close> that hold them. A failed conversion leaves the loop
  (\<^verbatim>\<open>goto error_out\<close>): the first component of the result is then \<open>False\<close>.
\<close>

function sendPackets_pkt_prepare ::
  "nat \<Rightarrow> nat \<Rightarrow> (nat \<Rightarrow> Packet) \<Rightarrow> (nat \<Rightarrow> MBufRawPacket) \<Rightarrow> nat list \<Rightarrow> KniDevice \<Rightarrow>
     fault + (bool \<times> (nat \<Rightarrow> MBufRawPacket) \<times> nat list \<times> KniDevice)" where
  "sendPackets_pkt_prepare i arrLength packetsArr mBufRawPacketArr allocated s =
     (if i < arrLength then
        (case m_RawPacket (packetsArr i) of
           None \<Rightarrow> Inl NullRawPacket
         | Some raw_pkt \<Rightarrow>
             (case raw_pkt of
                RAWPACKET rawData \<Rightarrow>
                  (case initFromRawPacket rawData MBufRawPacket_new s of
                     (ok, pkt, s1) \<Rightarrow>
                       if \<not> ok then Inr (False, mBufRawPacketArr, allocated, MBufRawPacket_delete pkt s1)
                       else
                         sendPackets_pkt_prepare (Suc i) arrLength packetsArr
                           (mBufRawPacketArr(i := pkt)) (allocated @ [i]) s1)
              | MBUFRAWPACKET p \<Rightarrow>
                  sendPackets_pkt_prepare (Suc i) arrLength packetsArr
                    (mBufRawPacketArr(i := p)) allocated s))
      else Inr (True, mBufRawPacketArr, allocated, s))"
  by pat_completeness auto
termination
  by (relation "measure (\<lambda>(i, n, packetsArr, arr, allocated, s). n - i)") auto

declare sendPackets_pkt_prepare.simps [simp del]

text \<open>\<^verbatim>\<open>error_out: for (i < allocated_count) delete allocated[i];\<close>\<close>

definition delete_allocated :: "(nat \<Rightarrow> MBufRawPacket) \<Rightarrow> nat list \<Rightarrow> KniDevice \<Rightarrow> KniDevice" where
  "delete_allocated mBufRawPacketArr allocated s =
     fold (\<lambda>j. MBufRawPacket_delete (mBufRawPacketArr j)) allocated s"

text \<open>
  \<^verbatim>\<open>sendPackets(Packet** packetsArr, uint16_t arrLength)\<close>. The result is the count, the
  caller's packets (an engine-native raw packet is the very slot that was marked), the
  array \<open>mBufRawPacketArr\<close> as the function leaves it, and the state.
\<close>

definition sendPackets_pkt ::
  "(nat \<Rightarrow> Packet) \<Rightarrow> 16 word \<Rightarrow> KniDevice \<Rightarrow>
     fault + (16 word \<times> (nat \<Rightarrow> Packet) \<times> (nat \<Rightarrow> MBufRawPacket) \<times> KniDevice)" where
  "sendPackets_pkt packetsArr arrLength s =
     (if \<not> m_DeviceOpened s then
        Inr (0, packetsArr, (\<lambda>i. MBufRawPacket_new), LOG (LOG_ERROR ''KNI device is not opened'') s)
      else
        (case sendPackets_pkt_prepare 0 (unat arrLength) packetsArr (\<lambda>i. MBufRawPacket_new) [] s of
           Inl f \<Rightarrow> Inl f
         | Inr (ok, mBufRawPacketArr, allocated, s1) \<Rightarrow>
             if \<not> ok then
               Inr (0, packetsArr, mBufRawPacketArr, delete_allocated mBufRawPacketArr allocated s1)
             else
               (let mBufArray = map (\<lambda>i. getMBuf (mBufRawPacketArr i)) [0..<unat arrLength]
                in case rte_kni_tx_burst (m_Device s1) mBufArray (unat arrLength) s1 of
                     Inl f \<Rightarrow> Inl f
                   | Inr (sent, s2) \<Rightarrow>
                       (let packetsSent = (of_nat sent :: 16 word);
                            marked = sendPackets_mark_loop 0 (unat arrLength) packetsSent mBufRawPacketArr
                        in Inr (packetsSent,
                                (\<lambda>i. if i < unat arrLength then
                                       (case m_RawPacket (packetsArr i) of
                                          Some (MBUFRAWPACKET p) \<Rightarrow>
                                            (packetsArr i)\<lparr>m_RawPacket := Some (MBUFRAWPACKET (marked i))\<rparr>
                                        | _ \<Rightarrow> packetsArr i)
                                     else packetsArr i),
                                marked,
                                delete_allocated marked allocated s2)))))"

text \<open>
  \<^verbatim>\<open>sendPackets(MBufRawPacketVector& rawPacketsVec)\<close>. The length is a \<^verbatim>\<open>size_t\<close>, the
  position counter \<^verbatim>\<open>pos\<close> a \<^verbatim>\<open>uint16_t\<close> that wraps, the count handed to the engine an
  \<^verbatim>\<open>unsigned\<close>, and the engine's answer is cut to a \<^verbatim>\<open>uint16_t\<close>.
\<close>

fun sendPackets_mvec_fill ::
  "16 word \<Rightarrow> MBufRawPacket list \<Rightarrow> (nat \<Rightarrow> rte_mbuf option) \<Rightarrow> (nat \<Rightarrow> rte_mbuf option)" where
  "sendPackets_mvec_fill pos [] mBufArray = mBufArray"
| "sendPackets_mvec_fill pos (p # ps) mBufArray =
     sendPackets_mvec_fill (pos + 1) ps (mBufArray(unat pos := getMBuf p))"

fun sendPackets_mvec_mark :: "16 word \<Rightarrow> 16 word \<Rightarrow> MBufRawPacket list \<Rightarrow> MBufRawPacket list" where
  "sendPackets_mvec_mark pos packetsSent [] = []"
| "sendPackets_mvec_mark pos packetsSent (p # ps) =
     setFreeMbuf (packetsSent \<le> pos) p # sendPackets_mvec_mark (pos + 1) packetsSent ps"

definition sendPackets_mvec ::
  "MBufRawPacket list \<Rightarrow> KniDevice \<Rightarrow> fault + (16 word \<times> MBufRawPacket list \<times> KniDevice)" where
  "sendPackets_mvec rawPacketsVec s =
     (if \<not> m_DeviceOpened s then
        Inr (0, rawPacketsVec, LOG (LOG_ERROR ''KNI device is not opened'') s)
      else
        (let arrLength = length rawPacketsVec;
             mBufArray = sendPackets_mvec_fill 0 rawPacketsVec (\<lambda>i. None)
         in case rte_kni_tx_burst (m_Device s) (map mBufArray [0..<arrLength mod 2 ^ 32])
                   (arrLength mod 2 ^ 32) s of
              Inl f \<Rightarrow> Inl f
            | Inr (sent, s1) \<Rightarrow>
                (let packetsSent = (of_nat sent :: 16 word)
                 in Inr (packetsSent, sendPackets_mvec_mark 0 packetsSent rawPacketsVec, s1))))"

text \<open>
  \<^verbatim>\<open>sendPackets(RawPacketVector& rawPacketsVec)\<close>. Here \<^verbatim>\<open>pos\<close>, \<^verbatim>\<open>allocatedCount\<close> and
  the counter \<^verbatim>\<open>i\<close> of the marking loop are \<^verbatim>\<open>uint16_t\<close> against a \<^verbatim>\<open>size_t\<close> length, so
  the marking loop \<^verbatim>\<open>for (uint16_t i = 0; i < arrLength; ++i)\<close> need not end. The slots
  allocated here are named by the cell of \<open>mBufRawPacketArr\<close> that holds them, which is
  exact as long as \<^verbatim>\<open>pos\<close> has not wrapped.
\<close>

fun sendPackets_rvec_prepare ::
  "RawPacket list \<Rightarrow> 16 word \<Rightarrow> (nat \<Rightarrow> MBufRawPacket) \<Rightarrow> (nat \<Rightarrow> nat) \<Rightarrow> 16 word \<Rightarrow> KniDevice \<Rightarrow>
     bool \<times> (nat \<Rightarrow> MBufRawPacket) \<times> (nat \<Rightarrow> nat) \<times> 16 word \<times> KniDevice" where
  "sendPackets_rvec_prepare [] pos mBufRawPacketArr allocated allocatedCount s =
     (True, mBufRawPacketArr, allocated, allocatedCount, s)"
| "sendPackets_rvec_prepare (r # rs) pos mBufRawPacketArr allocated allocatedCount s =
     (case r of
        RAWPACKET rawData \<Rightarrow>
          (case initFromRawPacket rawData MBufRawPacket_new s of
             (ok, pkt, s1) \<Rightarrow>
               if \<not> ok then
                 (False, mBufRawPacketArr, allocated, allocatedCount, MBufRawPacket_delete pkt s1)
               else
                 sendPackets_rvec_prepare rs (pos + 1) (mBufRawPacketArr(unat pos := pkt))
                   (allocated(unat allocatedCount := unat pos)) (allocatedCount + 1) s1)
      | MBUFRAWPACKET p \<Rightarrow>
          sendPackets_rvec_prepare rs (pos + 1) (mBufRawPacketArr(unat pos := p))
            allocated allocatedCount s)"

partial_function (option) sendPackets_rvec_mark ::
  "16 word \<Rightarrow> nat \<Rightarrow> 16 word \<Rightarrow> (nat \<Rightarrow> MBufRawPacket) \<Rightarrow> (nat \<Rightarrow> MBufRawPacket) option" where
  "sendPackets_rvec_mark i arrLength packetsSent arr =
     (if unat i < arrLength then
        sendPackets_rvec_mark (i + 1) arrLength packetsSent
          (arr(unat i := setFreeMbuf (packetsSent \<le> i) (arr (unat i))))
      else Some arr)"

definition sendPackets_rvec ::
  "RawPacket list \<Rightarrow> KniDevice \<Rightarrow>
     (fault + (16 word \<times> RawPacket list \<times> (nat \<Rightarrow> MBufRawPacket) \<times> KniDevice)) option" where
  "sendPackets_rvec rawPacketsVec s =
     (if \<not> m_DeviceOpened s then
        Some (Inr (0, rawPacketsVec, (\<lambda>i. MBufRawPacket_new), LOG (LOG_ERROR ''KNI device is not opened'') s))
      else
        (let arrLength = length rawPacketsVec
         in case sendPackets_rvec_prepare rawPacketsVec 0 (\<lambda>i. MBufRawPacket_new) (\<lambda>i. 0) 0 s of
              (ok, mBufRawPacketArr, allocated, allocatedCount, s1) \<Rightarrow>
                if \<not> ok then
                  Some (Inr (0, rawPacketsVec, mBufRawPacketArr,
                             delete_allocated mBufRawPacketArr (map allocated [0..<unat allocatedCount]) s1))
                else
                  (case rte_kni_tx_burst (m_Device s1)
                          (map (\<lambda>i. getMBuf (mBufRawPacketArr i)) [0..<arrLength mod 2 ^ 32])
                          (arrLength mod 2 ^ 32) s1 of
                     Inl f \<Rightarrow> Some (Inl f)
                   | Inr (sent, s2) \<Rightarrow>
                       (let packetsSent = (of_nat sent :: 16 word)
                        in case sendPackets_rvec_mark 0 arrLength packetsSent mBufRawPacketArr of
                             None \<Rightarrow> None
                           | Some marked \<Rightarrow>
                               Some (Inr (packetsSent,
                                          map (\<lambda>k. case rawPacketsVec ! k of
                                                      MBUFRAWPACKET p \<Rightarrow> MBUFRAWPACKET (marked (k mod 2 ^ 16))
                                                    | RAWPACKET rawData \<Rightarrow> RAWPACKET rawData)
                                              [0..<arrLength],
                                          marked,
                                          delete_allocated marked (map allocated [0..<unat allocatedCount]) s2))))))"

subsection \<open>Capture\<close>

text \<open>
  One burst handed to the callback: \<^verbatim>\<open>MBufRawPacket rawPackets[MAX_BURST_SIZE]\<close>, each of
  the first \<open>numOfPktsReceived\<close> slots bound to its buffer with the one \<open>time\<close>.
\<close>

function capture_stamp_loop ::
  "timeval \<Rightarrow> nat \<Rightarrow> nat \<Rightarrow> rte_mbuf list \<Rightarrow> MBufRawPacket list \<Rightarrow> MBufRawPacket list" where
  "capture_stamp_loop time numOfPktsReceived index mBufArray rawPackets =
     (if index < numOfPktsReceived then
        capture_stamp_loop time numOfPktsReceived (Suc index) mBufArray
          (rawPackets[index := setMBuf (mBufArray ! index) time (rawPackets ! index)])
      else rawPackets)"
  by pat_completeness auto
termination
  by (relation "measure (\<lambda>(time, n, index, mBufArray, arr). n - index)") auto

declare capture_stamp_loop.simps [simp del]

text \<open>The callback is called on the first \<open>numOfPktsReceived\<close> slots; when the block is left
  the slots of the stack array are destroyed, last first.\<close>

definition invoke_callback ::
  "OnKniPacketArriveCallback \<Rightarrow> MBufRawPacket list \<Rightarrow> nat \<Rightarrow> nat \<Rightarrow> KniDevice \<Rightarrow> bool \<times> KniDevice" where
  "invoke_callback cb rawPackets numOfPktsReceived userCookie s =
     (cb (callback_trace s) (take numOfPktsReceived rawPackets) userCookie,
      fold MBufRawPacket_delete (rev rawPackets) (s\<lparr>callback_trace := Suc (callback_trace s)\<rparr>))"

definition pthread_testcancel :: "KniDevice \<Rightarrow> bool \<times> KniDevice" where
  "pthread_testcancel s =
     (pthread_testcancel_reply s (pthread_testcancel_trace s),
      s\<lparr>pthread_testcancel_trace := Suc (pthread_testcancel_trace s)\<rparr>)"

text \<open>
  One iteration of the \<^verbatim>\<open>for(;;)\<close> of \<^verbatim>\<open>KniCapturing::runCapture\<close>, up to its
  \<^verbatim>\<open>pthread_testcancel\<close>: the answer is whether the loop goes on (\<open>False\<close> is the
  \<^verbatim>\<open>break\<close>), and the slots the callback was given.
\<close>

definition runCapture_iteration ::
  "OnKniPacketArriveCallback option \<Rightarrow> nat \<Rightarrow> rte_kni option \<Rightarrow> KniDevice \<Rightarrow>
     fault + (bool \<times> MBufRawPacket list \<times> KniDevice)" where
  "runCapture_iteration callback userCookie kni s =
     (case rte_kni_rx_burst kni MAX_BURST_SIZE s of
        Inl f \<Rightarrow> Inl f
      | Inr (mBufArray, s1) \<Rightarrow>
          (let numOfPktsReceived = length mBufArray
           in if numOfPktsReceived = 0 then Inr (True, [], s1)
              else
                (case gettimeofday s1 of
                   (time, s2) \<Rightarrow>
                     (case callback of
                        None \<Rightarrow> Inr (True, [], s2)
                      | Some cb \<Rightarrow>
                          (let rawPackets =
                                 capture_stamp_loop time numOfPktsReceived 0 mBufArray
                                   (replicate MAX_BURST_SIZE MBufRawPacket_new)
                           in case invoke_callback cb rawPackets numOfPktsReceived userCookie s2 of
                                (goOn, s3) \<Rightarrow> Inr (goOn, take numOfPktsReceived rawPackets, s3))))))"

partial_function (option) runCapture_loop ::
  "OnKniPacketArriveCallback option \<Rightarrow> nat \<Rightarrow> rte_kni option \<Rightarrow> KniDevice \<Rightarrow> (fault + KniDevice) option" where
  "runCapture_loop callback userCookie kni s =
     (case runCapture_iteration callback userCookie kni s of
        Inl f \<Rightarrow> Some (Inl f)
      | Inr (goOn, rawPackets, s1) \<Rightarrow>
          if \<not> goOn then Some (Inr s1)
          else
            (case pthread_testcancel s1 of
               (cancelled, s2) \<Rightarrow>
                 if cancelled then Some (Inr s2)
                 else runCapture_loop callback userCookie kni s2))"

definition runCapture :: "KniDevice \<Rightarrow> (fault + KniDevice) option" where
  "runCapture device =
     runCapture_loop (m_Capturing_callback device) (m_Capturing_userCookie device) (m_Device device)
       (LOG (LOG_DEBUG ''Starting KNI capture thread for device'') device)"

definition startCapture ::
  "OnKniPacketArriveCallback option \<Rightarrow> nat \<Rightarrow> KniDevice \<Rightarrow> fault + (bool \<times> KniDevice)" where
  "startCapture onPacketArrives onPacketArrivesUserCookie s =
     (if \<not> m_DeviceOpened s then
        Inr (False, LOG (LOG_ERROR ''KNI device is not opened. Can not start capture'') s)
      else if m_Capturing_thread s \<noteq> None then
        Inr (False, LOG (LOG_ERROR ''KNI device is already capturing'') s)
      else
        (case KniThread_new JOINABLE RunCapture
                (s\<lparr>m_Capturing_callback := onPacketArrives,
                   m_Capturing_userCookie := onPacketArrivesUserCookie\<rparr>) of
           (a, s1) \<Rightarrow>
             (let s2 = s1\<lparr>m_Capturing_thread := Some a\<rparr>
              in case heap s2 a of
                   None \<Rightarrow> Inl UseAfterFree
                 | Some t \<Rightarrow>
                     if m_State t = INVALID then
                       (case KniThread_delete a
                               (LOG (LOG_DEBUG ''KNI failed to start capturing thread on device'') s2) of
                          Inl f \<Rightarrow> Inl f
                        | Inr s3 \<Rightarrow> Inr (False, s3))
                     else Inr (True, s2))))"

definition stopCapture :: "KniDevice \<Rightarrow> fault + KniDevice" where
  "stopCapture s =
     (if m_Capturing_thread s = None then
        Inr (LOG (LOG_DEBUG ''Attempt to stop not running KNI capturing thread for device'') s)
      else Capturing_cleanup s)"

subsection \<open>Capture in blocking mode\<close>







subsection \<open>A concrete world\<close>

text \<open>
  A device configuration and a world for the concrete runs below: the kernel accepts
  every request and echoes it, the engine has link update, its RX ring is empty and its
  TX ring takes everything, threads start, and no conversion fails.
\<close>

definition conf0 :: KniDeviceConfiguration where
  "conf0 = \<lparr>conf_name = ''kni0'', conf_portId = 0, conf_mtu = 1500, conf_mac = None,
             conf_kthreadCoreId = 0, conf_bindKthread = False\<rparr>"

definition world0 :: KniDevice where
  "world0 =
     \<lparr>m_Device = None, m_MBufMempool = None, m_DeviceInfo = init conf0, m_DeviceOpened = False,
      m_Capturing_callback = None, m_Capturing_userCookie = 0, m_Capturing_thread = None,
      m_Requests_thread = None, m_Requests_sleepS = 0, m_Requests_sleepNs = 0,
      heap = (\<lambda>a. None), heap_next = 0, log = [],
      soc_reply = (\<lambda>k op req. (True, req)), soc_trace = [],
      has_update_link = True, update_link_reply = (\<lambda>k. LINK_DOWN), update_link_trace = [],
      rx_reply = (\<lambda>k. []), rx_trace = [],
      tx_reply = (\<lambda>k. 65536), tx_trace = [],
      pool_create_reply = (\<lambda>size unique. Some 1), kni_alloc_reply = Some 1,
      pthread_create_reply = (\<lambda>k. 0), pthread_create_trace = [],
      pthread_detach_reply = (\<lambda>k. 0), pthread_detach_trace = [],
      pthread_join_reply = (\<lambda>k. 0), pthread_join_trace = [],
      pthread_cancel_reply = (\<lambda>k. 0), pthread_cancel_trace = [],
      pthread_testcancel_reply = (\<lambda>k. False), pthread_testcancel_trace = 0,
      gettimeofday_reply = (\<lambda>k. \<lparr>tv_sec = 1000 + int k, tv_usec = 0\<rparr>), gettimeofday_trace = 0,
      clockGetTime_reply = (\<lambda>k. (1000 + of_nat k, 0)), clockGetTime_trace = 0,
      callback_trace = 0,
      init_reply = (\<lambda>k. Some (100 + k)), init_trace = 0,
      mbuf_free_trace = [], stack_overrun = []\<rparr>"

text \<open>The device as the constructor leaves it in that world, and the same device opened.\<close>

definition device0 :: KniDevice where
  "device0 = KniDevice_ctor conf0 2048 0 world0"

definition opened0 :: KniDevice where
  "opened0 = snd (open device0)"

text \<open>The same opened device in front of a kernel that refuses every request.\<close>

definition refused0 :: KniDevice where
  "refused0 = opened0\<lparr>soc_reply := (\<lambda>k op req. (False, req))\<rparr>"

text \<open>The constructed device in front of a kernel that accepts every request and reports
  the interface up and promiscuous, with MTU 9000 and the address 02:00:00:00:00:01. An
  address to set.\<close>

definition kernel0 :: KniDevice where
  "kernel0 = device0\<lparr>soc_reply := (\<lambda>k op req.
     (True, req\<lparr>ifr_flags := 0x101, ifr_mtu := 9000,
                ifr_hwaddr_sa_data := [2, 0, 0, 0, 0, 1, 0, 0, 0, 0, 0, 0, 0, 0]\<rparr>))\<rparr>"

definition mac0 :: MacAddress where
  "mac0 = \<lparr>mac_bytes = [2, 0, 0, 0, 0, 7], isValid = True\<rparr>"

text \<open>The constructed device when the kernel reports the interface up and promiscuous.\<close>

definition flags0 :: KniDevice where
  "flags0 = device0\<lparr>soc_reply := (\<lambda>k op req. (True, req\<lparr>ifr_flags := 0x101\<rparr>))\<rparr>"

text \<open>The opened device with a capture worker started by \<open>startCapture\<close>.\<close>

definition capturing0 :: KniDevice where
  "capturing0 =
     (case startCapture (Some (\<lambda>k pkts cookie. True)) 0 opened0 of
        Inr (r, s) \<Rightarrow> s
      | Inl f \<Rightarrow> opened0)"

text \<open>The device whose construction failed: \<^verbatim>\<open>rte_kni_alloc\<close> answered null.\<close>

definition nullhandle0 :: KniDevice where
  "nullhandle0 = KniDevice_ctor conf0 2048 0 (world0\<lparr>kni_alloc_reply := None\<rparr>)"




definition linkerror0 :: KniDevice where
  "linkerror0 = device0\<lparr>update_link_reply := (\<lambda>k. LINK_ERROR)\<rparr>"

text \<open>The opened device with two buffers waiting in the RX ring.\<close>

definition pending0 :: KniDevice where
  "pending0 = opened0\<lparr>rx_reply := (\<lambda>k. [10, 11])\<rparr>"

text \<open>The opened device where the first \<^verbatim>\<open>pthread_create\<close> fails and the later ones succeed.\<close>

definition nospawn0 :: KniDevice where
  "nospawn0 = opened0\<lparr>pthread_create_reply := (\<lambda>k. if k = 0 then 11 else 0)\<rparr>"

text \<open>
  The opened device whose engine takes one buffer of every burst, and the opened device
  whose pool has no buffer for a conversion. An engine-native slot that holds buffer 7
  and does not own it, a vector of that slot and one foreign item, and an array of
  packets that wrap the same two items.
\<close>

definition onesent0 :: KniDevice where
  "onesent0 = opened0\<lparr>tx_reply := (\<lambda>k. 1)\<rparr>"

definition nopool0 :: KniDevice where
  "nopool0 = opened0\<lparr>init_reply := (\<lambda>k. None)\<rparr>"

definition native0 :: MBufRawPacket where
  "native0 = \<lparr>m_MBuf = Some 7, m_FreeMbuf = False, m_TimeStamp = \<lparr>tv_sec = 0, tv_usec = 0\<rparr>\<rparr>"

definition mixed0 :: "RawPacket list" where
  "mixed0 = [MBUFRAWPACKET native0, RAWPACKET [1]]"

definition packets0 :: "nat \<Rightarrow> Packet" where
  "packets0 i =
     \<lparr>m_RawPacket = Some (if i = 0 then MBUFRAWPACKET native0 else RAWPACKET [1]),
      m_FreeRawPacket = True\<rparr>"

subsection \<open>Names for the statements\<close>


definition stamped :: "timeval \<Rightarrow> rte_mbuf list \<Rightarrow> MBufRawPacket list" where
  "stamped time mBufArray = map (\<lambda>mBuf. setMBuf mBuf time MBufRawPacket_new) mBufArray"

text \<open>
  The polls of a capture that starts in \<open>s\<close>, counted from 0: the burst the engine hands
  over at poll \<open>i\<close>, and the number of bursts before poll \<open>i\<close> that were not empty, which is
  the number of times the callback has been called by then.
\<close>

definition burst_at :: "KniDevice \<Rightarrow> nat \<Rightarrow> rte_mbuf list" where
  "burst_at s i = take MAX_BURST_SIZE (rx_reply s (length (rx_trace s) + i))"

definition bursts_before :: "KniDevice \<Rightarrow> nat \<Rightarrow> nat" where
  "bursts_before s i = length (filter (\<lambda>j. burst_at s j \<noteq> []) [0..<i])"






text \<open>
  The items the converting variants of \<^verbatim>\<open>sendPackets\<close> convert
  (\<^verbatim>\<open>raw_type != MBUFRAWPACKET_OBJECT_TYPE\<close>), and how many conversions a call makes when
  none fails: one per foreign item of the vector, or of the first \<open>n\<close> packets of the array.
\<close>

definition foreign :: "RawPacket \<Rightarrow> bool" where
  "foreign r = (case r of RAWPACKET rawData \<Rightarrow> True | MBUFRAWPACKET p \<Rightarrow> False)"

definition converts :: "Packet \<Rightarrow> bool" where
  "converts p = (case m_RawPacket p of Some r \<Rightarrow> foreign r | None \<Rightarrow> False)"

definition conversions_vec :: "RawPacket list \<Rightarrow> nat" where
  "conversions_vec rawPacketsVec = length (filter foreign rawPacketsVec)"

definition conversions_arr :: "(nat \<Rightarrow> Packet) \<Rightarrow> nat \<Rightarrow> nat" where
  "conversions_arr packetsArr n = length (filter (\<lambda>i. converts (packetsArr i)) [0..<n])"


section \<open>Properties\<close>

lemmas world_defs = device0_def opened0_def refused0_def KniDevice_ctor_def world0_def LOG_def
  init_def conf0_def open_def updateLinkState_def setKniDeviceLinkState_def rte_kni_update_link_def

lemma opened0_fields:
  "m_Device opened0 = Some 1" "m_DeviceOpened opened0" "m_Capturing_thread opened0 = None"
  "link (m_DeviceInfo opened0) = LINK_UP" "mtu (m_DeviceInfo opened0) = 1500"
  "promisc (m_DeviceInfo opened0) = PROMISC_DISABLE" "soc_trace opened0 = []"
  by (simp_all add: world_defs)

subsection \<open>The attribute cache\<close>

lemma setLinkState_flags_match:
  "state = LINK_DOWN \<or> state = LINK_UP \<Longrightarrow>
   soc_reply s (length (soc_trace s)) SIOCGIFFLAGS ifreq_zero = (True, req) \<Longrightarrow>
   (ifr_flags req AND IFF_UP \<noteq> 0) = (state = LINK_UP) \<Longrightarrow>
   setLinkState state s =
     (True, s\<lparr>soc_trace := soc_trace s @ [(SIOCGIFFLAGS, ifreq_zero)],
              m_DeviceInfo := (m_DeviceInfo s)\<lparr>link := state\<rparr>\<rparr>)"
  by (auto simp add: setLinkState_def makeRequest_def)

lemma setPromiscuous_flags_match:
  "mode = PROMISC_DISABLE \<or> mode = PROMISC_ENABLE \<Longrightarrow>
   soc_reply s (length (soc_trace s)) SIOCGIFFLAGS ifreq_zero = (True, req) \<Longrightarrow>
   (ifr_flags req AND IFF_PROMISC \<noteq> 0) = (mode = PROMISC_ENABLE) \<Longrightarrow>
   setPromiscuous mode s =
     (True, s\<lparr>soc_trace := soc_trace s @ [(SIOCGIFFLAGS, ifreq_zero)],
              m_DeviceInfo := (m_DeviceInfo s)\<lparr>promisc := mode\<rparr>\<rparr>)"
  by (auto simp add: setPromiscuous_def makeRequest_def)

lemma refused0_fields:
  "soc_reply refused0 = (\<lambda>k op req. (False, req))" "mtu (m_DeviceInfo refused0) = 1500"
  "link (m_DeviceInfo refused0) = LINK_UP" "promisc (m_DeviceInfo refused0) = PROMISC_DISABLE"
  "mac (m_DeviceInfo refused0) = MacAddress_Zero"
  by (simp_all add: world_defs)

text \<open>
  Claim C3 (attribute cache). For each of link, MAC, MTU and promiscuous mode, on any
  device \<open>s\<close> in front of any kernel, with \<open>l\<close>, \<open>m\<close>, \<open>u\<close>, \<open>p\<close> the values set:
  \<^item> a getter in query mode (\<open>INFO_RENEW\<close>) whose kernel read fails returns the cached value
    and leaves the cache (\<open>m_DeviceInfo\<close>) as it was;
  \<^item> a getter in query mode whose kernel read succeeds returns the value read and
    stores it in the cache, changing no other attribute;
  \<^item> a getter in cached mode returns the cached value and changes nothing;
  \<^item> after a setter that returned true the getter in cached mode returns the value set;
  \<^item> a setter that returned false left the cache as it was;
  \<^item> a setter whose value is not valid, or whose kernel request fails, returns false;
  \<^item> a setter whose value is valid and whose kernel requests succeed returns true and
    stores the value in the cache, changing no other attribute.
\<close>

lemma cache_rf_flags:
  "(\<not> fst (soc_reply s (length (soc_trace s)) SIOCGIFFLAGS ifreq_zero) \<longrightarrow>
        fst (getLinkState INFO_RENEW s) = link (m_DeviceInfo s) \<and>
        m_DeviceInfo (snd (getLinkState INFO_RENEW s)) = m_DeviceInfo s \<and>
        fst (getPromiscuous INFO_RENEW s) = promisc (m_DeviceInfo s) \<and>
        m_DeviceInfo (snd (getPromiscuous INFO_RENEW s)) = m_DeviceInfo s)"
  by (auto simp add: getLinkState_def getPromiscuous_def getMacAddress_def getMtu_def setLinkState_def setPromiscuous_def setMacAddress_def setMtu_def makeRequest_def LOG_def Let_def
      split: prod.splits if_splits)

lemma cache_rf_mac:
  "(\<not> fst (soc_reply s (length (soc_trace s)) SIOCGIFHWADDR
              (ifreq_zero\<lparr>ifr_hwaddr_sa_family := ARPHRD_ETHER\<rparr>)) \<longrightarrow>
        fst (getMacAddress INFO_RENEW s) = mac (m_DeviceInfo s) \<and>
        m_DeviceInfo (snd (getMacAddress INFO_RENEW s)) = m_DeviceInfo s)"
  by (auto simp add: getLinkState_def getPromiscuous_def getMacAddress_def getMtu_def setLinkState_def setPromiscuous_def setMacAddress_def setMtu_def makeRequest_def LOG_def Let_def
      split: prod.splits if_splits)

lemma cache_rf_mtu:
  "(\<not> fst (soc_reply s (length (soc_trace s)) SIOCGIFMTU ifreq_zero) \<longrightarrow>
        fst (getMtu INFO_RENEW s) = mtu (m_DeviceInfo s) \<and>
        m_DeviceInfo (snd (getMtu INFO_RENEW s)) = m_DeviceInfo s)"
  by (auto simp add: getLinkState_def getPromiscuous_def getMacAddress_def getMtu_def setLinkState_def setPromiscuous_def setMacAddress_def setMtu_def makeRequest_def LOG_def Let_def
      split: prod.splits if_splits)

lemma cache_ro_flags:
  "(fst (soc_reply s (length (soc_trace s)) SIOCGIFFLAGS ifreq_zero) \<longrightarrow>
        fst (getLinkState INFO_RENEW s) = (if (ifr_flags (snd (soc_reply s (length (soc_trace s)) SIOCGIFFLAGS ifreq_zero)) AND IFF_UP \<noteq> 0) then LINK_UP else LINK_DOWN) \<and>
        m_DeviceInfo (snd (getLinkState INFO_RENEW s)) =
          (m_DeviceInfo s)\<lparr>link := (if (ifr_flags (snd (soc_reply s (length (soc_trace s)) SIOCGIFFLAGS ifreq_zero)) AND IFF_UP \<noteq> 0) then LINK_UP else LINK_DOWN)\<rparr> \<and>
        fst (getPromiscuous INFO_RENEW s) = (if (ifr_flags (snd (soc_reply s (length (soc_trace s)) SIOCGIFFLAGS ifreq_zero)) AND IFF_PROMISC \<noteq> 0) then PROMISC_ENABLE else PROMISC_DISABLE) \<and>
        m_DeviceInfo (snd (getPromiscuous INFO_RENEW s)) =
          (m_DeviceInfo s)\<lparr>promisc := (if (ifr_flags (snd (soc_reply s (length (soc_trace s)) SIOCGIFFLAGS ifreq_zero)) AND IFF_PROMISC \<noteq> 0) then PROMISC_ENABLE else PROMISC_DISABLE)\<rparr>)"
  by (auto simp add: getLinkState_def getPromiscuous_def getMacAddress_def getMtu_def setLinkState_def setPromiscuous_def setMacAddress_def setMtu_def makeRequest_def LOG_def Let_def
      split: prod.splits if_splits)

lemma cache_ro_mac:
  "(fst (soc_reply s (length (soc_trace s)) SIOCGIFHWADDR
              (ifreq_zero\<lparr>ifr_hwaddr_sa_family := ARPHRD_ETHER\<rparr>)) \<longrightarrow>
        fst (getMacAddress INFO_RENEW s) =
          MacAddress_of_bytes (ifr_hwaddr_sa_data (snd (soc_reply s (length (soc_trace s)) SIOCGIFHWADDR
              (ifreq_zero\<lparr>ifr_hwaddr_sa_family := ARPHRD_ETHER\<rparr>)))) \<and>
        m_DeviceInfo (snd (getMacAddress INFO_RENEW s)) =
          (m_DeviceInfo s)\<lparr>mac := MacAddress_of_bytes (ifr_hwaddr_sa_data (snd (soc_reply s (length (soc_trace s)) SIOCGIFHWADDR
              (ifreq_zero\<lparr>ifr_hwaddr_sa_family := ARPHRD_ETHER\<rparr>))))\<rparr>)"
  by (auto simp add: getLinkState_def getPromiscuous_def getMacAddress_def getMtu_def setLinkState_def setPromiscuous_def setMacAddress_def setMtu_def makeRequest_def LOG_def Let_def
      split: prod.splits if_splits)

lemma cache_ro_mtu:
  "(fst (soc_reply s (length (soc_trace s)) SIOCGIFMTU ifreq_zero) \<longrightarrow>
        fst (getMtu INFO_RENEW s) = ucast (ifr_mtu (snd (soc_reply s (length (soc_trace s)) SIOCGIFMTU ifreq_zero))) \<and>
        m_DeviceInfo (snd (getMtu INFO_RENEW s)) =
          (m_DeviceInfo s)\<lparr>mtu := ucast (ifr_mtu (snd (soc_reply s (length (soc_trace s)) SIOCGIFMTU ifreq_zero)))\<rparr>)"
  by (auto simp add: getLinkState_def getPromiscuous_def getMacAddress_def getMtu_def setLinkState_def setPromiscuous_def setMacAddress_def setMtu_def makeRequest_def LOG_def Let_def
      split: prod.splits if_splits)

lemma cache_cached:
  "(getLinkState INFO_CACHED s = (link (m_DeviceInfo s), s) \<and>
      getMacAddress INFO_CACHED s = (mac (m_DeviceInfo s), s) \<and>
      getMtu INFO_CACHED s = (mtu (m_DeviceInfo s), s) \<and>
      getPromiscuous INFO_CACHED s = (promisc (m_DeviceInfo s), s))"
  by (auto simp add: getLinkState_def getPromiscuous_def getMacAddress_def getMtu_def setLinkState_def setPromiscuous_def setMacAddress_def setMtu_def makeRequest_def LOG_def Let_def
      split: prod.splits if_splits)

lemma cache_st_link:
  "(fst (setLinkState l s) \<longrightarrow> fst (getLinkState INFO_CACHED (snd (setLinkState l s))) = l)"
  by (auto simp add: getLinkState_def getPromiscuous_def getMacAddress_def getMtu_def setLinkState_def setPromiscuous_def setMacAddress_def setMtu_def makeRequest_def LOG_def Let_def
      split: prod.splits if_splits)

lemma cache_st_mac:
  "(fst (setMacAddress m s) \<longrightarrow> fst (getMacAddress INFO_CACHED (snd (setMacAddress m s))) = m)"
  by (auto simp add: getLinkState_def getPromiscuous_def getMacAddress_def getMtu_def setLinkState_def setPromiscuous_def setMacAddress_def setMtu_def makeRequest_def LOG_def Let_def
      split: prod.splits if_splits)

lemma cache_st_mtu:
  "(fst (setMtu u s) \<longrightarrow> fst (getMtu INFO_CACHED (snd (setMtu u s))) = u)"
  by (auto simp add: getLinkState_def getPromiscuous_def getMacAddress_def getMtu_def setLinkState_def setPromiscuous_def setMacAddress_def setMtu_def makeRequest_def LOG_def Let_def
      split: prod.splits if_splits)

lemma cache_st_promisc:
  "(fst (setPromiscuous p s) \<longrightarrow> fst (getPromiscuous INFO_CACHED (snd (setPromiscuous p s))) = p)"
  by (auto simp add: getLinkState_def getPromiscuous_def getMacAddress_def getMtu_def setLinkState_def setPromiscuous_def setMacAddress_def setMtu_def makeRequest_def LOG_def Let_def
      split: prod.splits if_splits)

lemma cache_sf_link:
  "(\<not> fst (setLinkState l s) \<longrightarrow> m_DeviceInfo (snd (setLinkState l s)) = m_DeviceInfo s)"
  by (auto simp add: getLinkState_def getPromiscuous_def getMacAddress_def getMtu_def setLinkState_def setPromiscuous_def setMacAddress_def setMtu_def makeRequest_def LOG_def Let_def
      split: prod.splits if_splits)

lemma cache_sf_mac:
  "(\<not> fst (setMacAddress m s) \<longrightarrow> m_DeviceInfo (snd (setMacAddress m s)) = m_DeviceInfo s)"
  by (auto simp add: getLinkState_def getPromiscuous_def getMacAddress_def getMtu_def setLinkState_def setPromiscuous_def setMacAddress_def setMtu_def makeRequest_def LOG_def Let_def
      split: prod.splits if_splits)

lemma cache_sf_mtu:
  "(\<not> fst (setMtu u s) \<longrightarrow> m_DeviceInfo (snd (setMtu u s)) = m_DeviceInfo s)"
  by (auto simp add: getLinkState_def getPromiscuous_def getMacAddress_def getMtu_def setLinkState_def setPromiscuous_def setMacAddress_def setMtu_def makeRequest_def LOG_def Let_def
      split: prod.splits if_splits)

lemma cache_sf_promisc:
  "(\<not> fst (setPromiscuous p s) \<longrightarrow> m_DeviceInfo (snd (setPromiscuous p s)) = m_DeviceInfo s)"
  by (auto simp add: getLinkState_def getPromiscuous_def getMacAddress_def getMtu_def setLinkState_def setPromiscuous_def setMacAddress_def setMtu_def makeRequest_def LOG_def Let_def
      split: prod.splits if_splits)

lemma cache_kr_link:
  "((l \<noteq> LINK_DOWN \<and> l \<noteq> LINK_UP) \<or>
      \<not> fst (soc_reply s (length (soc_trace s)) SIOCGIFFLAGS ifreq_zero) \<or>
      (fst (soc_reply s (length (soc_trace s)) SIOCGIFFLAGS ifreq_zero) \<and> (ifr_flags (snd (soc_reply s (length (soc_trace s)) SIOCGIFFLAGS ifreq_zero)) AND IFF_UP \<noteq> 0) \<noteq> (l = LINK_UP) \<and>
       \<not> fst (soc_reply s (Suc (length (soc_trace s))) SIOCSIFFLAGS
                 ((snd (soc_reply s (length (soc_trace s)) SIOCGIFFLAGS ifreq_zero))\<lparr>ifr_flags :=
                    ifr_flags (snd (soc_reply s (length (soc_trace s)) SIOCGIFFLAGS ifreq_zero)) XOR IFF_UP\<rparr>))) \<longrightarrow>
        \<not> fst (setLinkState l s))"
  by (auto simp add: getLinkState_def getPromiscuous_def getMacAddress_def getMtu_def setLinkState_def setPromiscuous_def setMacAddress_def setMtu_def makeRequest_def LOG_def Let_def
      split: prod.splits if_splits)

lemma cache_kr_mac:
  "(\<not> isValid m \<or>
      \<not> fst (soc_reply s (length (soc_trace s)) SIOCSIFHWADDR
              (ifreq_zero\<lparr>ifr_hwaddr_sa_family := ARPHRD_ETHER,
                          ifr_hwaddr_sa_data := take 6 (mac_bytes m) @ replicate 8 0\<rparr>)) \<longrightarrow>
        \<not> fst (setMacAddress m s))"
  by (auto simp add: getLinkState_def getPromiscuous_def getMacAddress_def getMtu_def setLinkState_def setPromiscuous_def setMacAddress_def setMtu_def makeRequest_def LOG_def Let_def
      split: prod.splits if_splits)

lemma cache_kr_mtu:
  "(\<not> fst (soc_reply s (length (soc_trace s)) SIOCSIFMTU (ifreq_zero\<lparr>ifr_mtu := ucast u\<rparr>)) \<longrightarrow>
        \<not> fst (setMtu u s))"
  by (auto simp add: getLinkState_def getPromiscuous_def getMacAddress_def getMtu_def setLinkState_def setPromiscuous_def setMacAddress_def setMtu_def makeRequest_def LOG_def Let_def
      split: prod.splits if_splits)

lemma cache_kr_promisc:
  "(\<not> fst (soc_reply s (length (soc_trace s)) SIOCGIFFLAGS ifreq_zero) \<or>
      (fst (soc_reply s (length (soc_trace s)) SIOCGIFFLAGS ifreq_zero) \<and> (ifr_flags (snd (soc_reply s (length (soc_trace s)) SIOCGIFFLAGS ifreq_zero)) AND IFF_PROMISC \<noteq> 0) \<noteq> (p = PROMISC_ENABLE) \<and>
       \<not> fst (soc_reply s (Suc (length (soc_trace s))) SIOCSIFFLAGS
                 ((snd (soc_reply s (length (soc_trace s)) SIOCGIFFLAGS ifreq_zero))\<lparr>ifr_flags :=
                    ifr_flags (snd (soc_reply s (length (soc_trace s)) SIOCGIFFLAGS ifreq_zero)) XOR IFF_PROMISC\<rparr>))) \<longrightarrow>
        \<not> fst (setPromiscuous p s))"
  by (auto simp add: getLinkState_def getPromiscuous_def getMacAddress_def getMtu_def setLinkState_def setPromiscuous_def setMacAddress_def setMtu_def makeRequest_def LOG_def Let_def
      split: prod.splits if_splits)

lemma cache_ka_link:
  "((l = LINK_DOWN \<or> l = LINK_UP) \<and> fst (soc_reply s (length (soc_trace s)) SIOCGIFFLAGS ifreq_zero) \<and>
      ((ifr_flags (snd (soc_reply s (length (soc_trace s)) SIOCGIFFLAGS ifreq_zero)) AND IFF_UP \<noteq> 0) = (l = LINK_UP) \<or>
       fst (soc_reply s (Suc (length (soc_trace s))) SIOCSIFFLAGS
                 ((snd (soc_reply s (length (soc_trace s)) SIOCGIFFLAGS ifreq_zero))\<lparr>ifr_flags :=
                    ifr_flags (snd (soc_reply s (length (soc_trace s)) SIOCGIFFLAGS ifreq_zero)) XOR IFF_UP\<rparr>))) \<longrightarrow>
        fst (setLinkState l s) \<and>
        m_DeviceInfo (snd (setLinkState l s)) = (m_DeviceInfo s)\<lparr>link := l\<rparr>)"
  by (auto simp add: getLinkState_def getPromiscuous_def getMacAddress_def getMtu_def setLinkState_def setPromiscuous_def setMacAddress_def setMtu_def makeRequest_def LOG_def Let_def
      split: prod.splits if_splits)

lemma cache_ka_mac:
  "(isValid m \<and>
      fst (soc_reply s (length (soc_trace s)) SIOCSIFHWADDR
              (ifreq_zero\<lparr>ifr_hwaddr_sa_family := ARPHRD_ETHER,
                          ifr_hwaddr_sa_data := take 6 (mac_bytes m) @ replicate 8 0\<rparr>)) \<longrightarrow>
        fst (setMacAddress m s) \<and>
        m_DeviceInfo (snd (setMacAddress m s)) = (m_DeviceInfo s)\<lparr>mac := m\<rparr>)"
  by (auto simp add: getLinkState_def getPromiscuous_def getMacAddress_def getMtu_def setLinkState_def setPromiscuous_def setMacAddress_def setMtu_def makeRequest_def LOG_def Let_def
      split: prod.splits if_splits)

lemma cache_ka_mtu:
  "(fst (soc_reply s (length (soc_trace s)) SIOCSIFMTU (ifreq_zero\<lparr>ifr_mtu := ucast u\<rparr>)) \<longrightarrow>
        fst (setMtu u s) \<and>
        m_DeviceInfo (snd (setMtu u s)) = (m_DeviceInfo s)\<lparr>mtu := u\<rparr>)"
  by (auto simp add: getLinkState_def getPromiscuous_def getMacAddress_def getMtu_def setLinkState_def setPromiscuous_def setMacAddress_def setMtu_def makeRequest_def LOG_def Let_def
      split: prod.splits if_splits)

lemma cache_ka_promisc:
  "(fst (soc_reply s (length (soc_trace s)) SIOCGIFFLAGS ifreq_zero) \<and>
      ((ifr_flags (snd (soc_reply s (length (soc_trace s)) SIOCGIFFLAGS ifreq_zero)) AND IFF_PROMISC \<noteq> 0) = (p = PROMISC_ENABLE) \<or>
       fst (soc_reply s (Suc (length (soc_trace s))) SIOCSIFFLAGS
                 ((snd (soc_reply s (length (soc_trace s)) SIOCGIFFLAGS ifreq_zero))\<lparr>ifr_flags :=
                    ifr_flags (snd (soc_reply s (length (soc_trace s)) SIOCGIFFLAGS ifreq_zero)) XOR IFF_PROMISC\<rparr>))) \<longrightarrow>
        fst (setPromiscuous p s) \<and>
        m_DeviceInfo (snd (setPromiscuous p s)) = (m_DeviceInfo s)\<lparr>promisc := p\<rparr>)"
  by (cases p) (auto simp add: getLinkState_def getPromiscuous_def getMacAddress_def getMtu_def setLinkState_def setPromiscuous_def setMacAddress_def setMtu_def makeRequest_def LOG_def Let_def
      split: prod.splits if_splits)

theorem attribute_cache_consistency:
  "(\<not> fst (soc_reply s (length (soc_trace s)) SIOCGIFFLAGS ifreq_zero) \<longrightarrow>
      fst (getLinkState INFO_RENEW s) = link (m_DeviceInfo s) \<and>
      m_DeviceInfo (snd (getLinkState INFO_RENEW s)) = m_DeviceInfo s \<and>
      fst (getPromiscuous INFO_RENEW s) = promisc (m_DeviceInfo s) \<and>
      m_DeviceInfo (snd (getPromiscuous INFO_RENEW s)) = m_DeviceInfo s) \<and>
   (\<not> fst (soc_reply s (length (soc_trace s)) SIOCGIFHWADDR
            (ifreq_zero\<lparr>ifr_hwaddr_sa_family := ARPHRD_ETHER\<rparr>)) \<longrightarrow>
      fst (getMacAddress INFO_RENEW s) = mac (m_DeviceInfo s) \<and>
      m_DeviceInfo (snd (getMacAddress INFO_RENEW s)) = m_DeviceInfo s) \<and>
   (\<not> fst (soc_reply s (length (soc_trace s)) SIOCGIFMTU ifreq_zero) \<longrightarrow>
      fst (getMtu INFO_RENEW s) = mtu (m_DeviceInfo s) \<and>
      m_DeviceInfo (snd (getMtu INFO_RENEW s)) = m_DeviceInfo s) \<and>
   (fst (soc_reply s (length (soc_trace s)) SIOCGIFFLAGS ifreq_zero) \<longrightarrow>
      fst (getLinkState INFO_RENEW s) = (if (ifr_flags (snd (soc_reply s (length (soc_trace s)) SIOCGIFFLAGS ifreq_zero)) AND IFF_UP \<noteq> 0) then LINK_UP else LINK_DOWN) \<and>
      m_DeviceInfo (snd (getLinkState INFO_RENEW s)) =
        (m_DeviceInfo s)\<lparr>link := (if (ifr_flags (snd (soc_reply s (length (soc_trace s)) SIOCGIFFLAGS ifreq_zero)) AND IFF_UP \<noteq> 0) then LINK_UP else LINK_DOWN)\<rparr> \<and>
      fst (getPromiscuous INFO_RENEW s) = (if (ifr_flags (snd (soc_reply s (length (soc_trace s)) SIOCGIFFLAGS ifreq_zero)) AND IFF_PROMISC \<noteq> 0) then PROMISC_ENABLE else PROMISC_DISABLE) \<and>
      m_DeviceInfo (snd (getPromiscuous INFO_RENEW s)) =
        (m_DeviceInfo s)\<lparr>promisc := (if (ifr_flags (snd (soc_reply s (length (soc_trace s)) SIOCGIFFLAGS ifreq_zero)) AND IFF_PROMISC \<noteq> 0) then PROMISC_ENABLE else PROMISC_DISABLE)\<rparr>) \<and>
   (fst (soc_reply s (length (soc_trace s)) SIOCGIFHWADDR
            (ifreq_zero\<lparr>ifr_hwaddr_sa_family := ARPHRD_ETHER\<rparr>)) \<longrightarrow>
      fst (getMacAddress INFO_RENEW s) =
        MacAddress_of_bytes (ifr_hwaddr_sa_data (snd (soc_reply s (length (soc_trace s)) SIOCGIFHWADDR
            (ifreq_zero\<lparr>ifr_hwaddr_sa_family := ARPHRD_ETHER\<rparr>)))) \<and>
      m_DeviceInfo (snd (getMacAddress INFO_RENEW s)) =
        (m_DeviceInfo s)\<lparr>mac := MacAddress_of_bytes (ifr_hwaddr_sa_data (snd (soc_reply s (length (soc_trace s)) SIOCGIFHWADDR
            (ifreq_zero\<lparr>ifr_hwaddr_sa_family := ARPHRD_ETHER\<rparr>))))\<rparr>) \<and>
   (fst (soc_reply s (length (soc_trace s)) SIOCGIFMTU ifreq_zero) \<longrightarrow>
      fst (getMtu INFO_RENEW s) = ucast (ifr_mtu (snd (soc_reply s (length (soc_trace s)) SIOCGIFMTU ifreq_zero))) \<and>
      m_DeviceInfo (snd (getMtu INFO_RENEW s)) =
        (m_DeviceInfo s)\<lparr>mtu := ucast (ifr_mtu (snd (soc_reply s (length (soc_trace s)) SIOCGIFMTU ifreq_zero)))\<rparr>) \<and>
   (getLinkState INFO_CACHED s = (link (m_DeviceInfo s), s) \<and>
    getMacAddress INFO_CACHED s = (mac (m_DeviceInfo s), s) \<and>
    getMtu INFO_CACHED s = (mtu (m_DeviceInfo s), s) \<and>
    getPromiscuous INFO_CACHED s = (promisc (m_DeviceInfo s), s)) \<and>
   (fst (setLinkState l s) \<longrightarrow> fst (getLinkState INFO_CACHED (snd (setLinkState l s))) = l) \<and>
   (fst (setMacAddress m s) \<longrightarrow> fst (getMacAddress INFO_CACHED (snd (setMacAddress m s))) = m) \<and>
   (fst (setMtu u s) \<longrightarrow> fst (getMtu INFO_CACHED (snd (setMtu u s))) = u) \<and>
   (fst (setPromiscuous p s) \<longrightarrow> fst (getPromiscuous INFO_CACHED (snd (setPromiscuous p s))) = p) \<and>
   (\<not> fst (setLinkState l s) \<longrightarrow> m_DeviceInfo (snd (setLinkState l s)) = m_DeviceInfo s) \<and>
   (\<not> fst (setMacAddress m s) \<longrightarrow> m_DeviceInfo (snd (setMacAddress m s)) = m_DeviceInfo s) \<and>
   (\<not> fst (setMtu u s) \<longrightarrow> m_DeviceInfo (snd (setMtu u s)) = m_DeviceInfo s) \<and>
   (\<not> fst (setPromiscuous p s) \<longrightarrow> m_DeviceInfo (snd (setPromiscuous p s)) = m_DeviceInfo s) \<and>
   ((l \<noteq> LINK_DOWN \<and> l \<noteq> LINK_UP) \<or>
    \<not> fst (soc_reply s (length (soc_trace s)) SIOCGIFFLAGS ifreq_zero) \<or>
    (fst (soc_reply s (length (soc_trace s)) SIOCGIFFLAGS ifreq_zero) \<and> (ifr_flags (snd (soc_reply s (length (soc_trace s)) SIOCGIFFLAGS ifreq_zero)) AND IFF_UP \<noteq> 0) \<noteq> (l = LINK_UP) \<and>
     \<not> fst (soc_reply s (Suc (length (soc_trace s))) SIOCSIFFLAGS
               ((snd (soc_reply s (length (soc_trace s)) SIOCGIFFLAGS ifreq_zero))\<lparr>ifr_flags :=
                  ifr_flags (snd (soc_reply s (length (soc_trace s)) SIOCGIFFLAGS ifreq_zero)) XOR IFF_UP\<rparr>))) \<longrightarrow>
      \<not> fst (setLinkState l s)) \<and>
   (\<not> isValid m \<or>
    \<not> fst (soc_reply s (length (soc_trace s)) SIOCSIFHWADDR
            (ifreq_zero\<lparr>ifr_hwaddr_sa_family := ARPHRD_ETHER,
                        ifr_hwaddr_sa_data := take 6 (mac_bytes m) @ replicate 8 0\<rparr>)) \<longrightarrow>
      \<not> fst (setMacAddress m s)) \<and>
   (\<not> fst (soc_reply s (length (soc_trace s)) SIOCSIFMTU (ifreq_zero\<lparr>ifr_mtu := ucast u\<rparr>)) \<longrightarrow>
      \<not> fst (setMtu u s)) \<and>
   (\<not> fst (soc_reply s (length (soc_trace s)) SIOCGIFFLAGS ifreq_zero) \<or>
    (fst (soc_reply s (length (soc_trace s)) SIOCGIFFLAGS ifreq_zero) \<and> (ifr_flags (snd (soc_reply s (length (soc_trace s)) SIOCGIFFLAGS ifreq_zero)) AND IFF_PROMISC \<noteq> 0) \<noteq> (p = PROMISC_ENABLE) \<and>
     \<not> fst (soc_reply s (Suc (length (soc_trace s))) SIOCSIFFLAGS
               ((snd (soc_reply s (length (soc_trace s)) SIOCGIFFLAGS ifreq_zero))\<lparr>ifr_flags :=
                  ifr_flags (snd (soc_reply s (length (soc_trace s)) SIOCGIFFLAGS ifreq_zero)) XOR IFF_PROMISC\<rparr>))) \<longrightarrow>
      \<not> fst (setPromiscuous p s)) \<and>
   ((l = LINK_DOWN \<or> l = LINK_UP) \<and> fst (soc_reply s (length (soc_trace s)) SIOCGIFFLAGS ifreq_zero) \<and>
    ((ifr_flags (snd (soc_reply s (length (soc_trace s)) SIOCGIFFLAGS ifreq_zero)) AND IFF_UP \<noteq> 0) = (l = LINK_UP) \<or>
     fst (soc_reply s (Suc (length (soc_trace s))) SIOCSIFFLAGS
               ((snd (soc_reply s (length (soc_trace s)) SIOCGIFFLAGS ifreq_zero))\<lparr>ifr_flags :=
                  ifr_flags (snd (soc_reply s (length (soc_trace s)) SIOCGIFFLAGS ifreq_zero)) XOR IFF_UP\<rparr>))) \<longrightarrow>
      fst (setLinkState l s) \<and>
      m_DeviceInfo (snd (setLinkState l s)) = (m_DeviceInfo s)\<lparr>link := l\<rparr>) \<and>
   (isValid m \<and>
    fst (soc_reply s (length (soc_trace s)) SIOCSIFHWADDR
            (ifreq_zero\<lparr>ifr_hwaddr_sa_family := ARPHRD_ETHER,
                        ifr_hwaddr_sa_data := take 6 (mac_bytes m) @ replicate 8 0\<rparr>)) \<longrightarrow>
      fst (setMacAddress m s) \<and>
      m_DeviceInfo (snd (setMacAddress m s)) = (m_DeviceInfo s)\<lparr>mac := m\<rparr>) \<and>
   (fst (soc_reply s (length (soc_trace s)) SIOCSIFMTU (ifreq_zero\<lparr>ifr_mtu := ucast u\<rparr>)) \<longrightarrow>
      fst (setMtu u s) \<and>
      m_DeviceInfo (snd (setMtu u s)) = (m_DeviceInfo s)\<lparr>mtu := u\<rparr>) \<and>
   (fst (soc_reply s (length (soc_trace s)) SIOCGIFFLAGS ifreq_zero) \<and>
    ((ifr_flags (snd (soc_reply s (length (soc_trace s)) SIOCGIFFLAGS ifreq_zero)) AND IFF_PROMISC \<noteq> 0) = (p = PROMISC_ENABLE) \<or>
     fst (soc_reply s (Suc (length (soc_trace s))) SIOCSIFFLAGS
               ((snd (soc_reply s (length (soc_trace s)) SIOCGIFFLAGS ifreq_zero))\<lparr>ifr_flags :=
                  ifr_flags (snd (soc_reply s (length (soc_trace s)) SIOCGIFFLAGS ifreq_zero)) XOR IFF_PROMISC\<rparr>))) \<longrightarrow>
      fst (setPromiscuous p s) \<and>
      m_DeviceInfo (snd (setPromiscuous p s)) = (m_DeviceInfo s)\<lparr>promisc := p\<rparr>)"
  by (rule conjI [OF cache_rf_flags conjI [OF cache_rf_mac conjI [OF cache_rf_mtu conjI [OF
      cache_ro_flags conjI [OF cache_ro_mac conjI [OF cache_ro_mtu conjI [OF cache_cached conjI
      [OF cache_st_link conjI [OF cache_st_mac conjI [OF cache_st_mtu conjI [OF cache_st_promisc
      conjI [OF cache_sf_link conjI [OF cache_sf_mac conjI [OF cache_sf_mtu conjI [OF
      cache_sf_promisc conjI [OF cache_kr_link conjI [OF cache_kr_mac conjI [OF cache_kr_mtu
      conjI [OF cache_kr_promisc conjI [OF cache_ka_link conjI [OF cache_ka_mac conjI [OF
      cache_ka_mtu cache_ka_promisc]]]]]]]]]]]]]]]]]]]]]])

lemma kernel0_fields:
  "soc_reply kernel0 k op req =
     (True, req\<lparr>ifr_flags := 0x101, ifr_mtu := 9000,
                ifr_hwaddr_sa_data := [2, 0, 0, 0, 0, 1, 0, 0, 0, 0, 0, 0, 0, 0]\<rparr>)"
  "link (m_DeviceInfo kernel0) = LINK_NOT_SUPPORTED" "mtu (m_DeviceInfo kernel0) = 1500"
  "promisc (m_DeviceInfo kernel0) = PROMISC_DISABLE" "mac (m_DeviceInfo kernel0) = MacAddress_Zero"
  by (simp_all add: kernel0_def world_defs)

lemma opened0_kernel:
  "soc_reply opened0 k op req = (True, req)" "mac (m_DeviceInfo opened0) = MacAddress_Zero"
  by (simp_all add: world_defs)

text \<open>
  The theorem at work. In front of a kernel that refuses every request, each query getter
  answers from the cache (MTU 1500, link up, not promiscuous, the zero address), each of
  the four setters fails, and the cache stays. In front of a kernel that reports the interface up and
  promiscuous with MTU 9000 and the address 02:00:00:00:00:01, while the cache of the
  constructed device says otherwise, each query getter returns what the kernel reports
  and the cache holds it afterwards. In front of a kernel that accepts every request,
  each of the four setters returns true and the cached getter returns the value set;
  \<open>setLinkState LINK_ERROR\<close> is refused.
\<close>

theorem attribute_cache_consistency_witness:
  "fst (getMtu INFO_RENEW refused0) = 1500 \<and>
   mtu (m_DeviceInfo (snd (getMtu INFO_RENEW refused0))) = 1500 \<and>
   \<not> fst (setMtu 9000 refused0) \<and>
   fst (getMtu INFO_CACHED (snd (setMtu 9000 refused0))) = 1500 \<and>
   \<not> fst (setLinkState LINK_DOWN refused0) \<and>
   fst (getLinkState INFO_CACHED (snd (setLinkState LINK_DOWN refused0))) = LINK_UP \<and>
   link (m_DeviceInfo kernel0) = LINK_NOT_SUPPORTED \<and>
   fst (getLinkState INFO_RENEW kernel0) = LINK_UP \<and>
   link (m_DeviceInfo (snd (getLinkState INFO_RENEW kernel0))) = LINK_UP \<and>
   promisc (m_DeviceInfo kernel0) = PROMISC_DISABLE \<and>
   fst (getPromiscuous INFO_RENEW kernel0) = PROMISC_ENABLE \<and>
   promisc (m_DeviceInfo (snd (getPromiscuous INFO_RENEW kernel0))) = PROMISC_ENABLE \<and>
   mac (m_DeviceInfo kernel0) = MacAddress_Zero \<and>
   fst (getMacAddress INFO_RENEW kernel0) = \<lparr>mac_bytes = [2, 0, 0, 0, 0, 1], isValid = True\<rparr> \<and>
   mac (m_DeviceInfo (snd (getMacAddress INFO_RENEW kernel0))) =
     \<lparr>mac_bytes = [2, 0, 0, 0, 0, 1], isValid = True\<rparr> \<and>
   mtu (m_DeviceInfo kernel0) = 1500 \<and>
   fst (getMtu INFO_RENEW kernel0) = 9000 \<and>
   mtu (m_DeviceInfo (snd (getMtu INFO_RENEW kernel0))) = 9000 \<and>
   fst (setMtu 9000 opened0) \<and>
   fst (getMtu INFO_CACHED (snd (setMtu 9000 opened0))) = 9000 \<and>
   fst (setMacAddress mac0 opened0) \<and>
   fst (getMacAddress INFO_CACHED (snd (setMacAddress mac0 opened0))) = mac0 \<and>
   link (m_DeviceInfo opened0) = LINK_UP \<and>
   fst (setLinkState LINK_DOWN opened0) \<and>
   fst (getLinkState INFO_CACHED (snd (setLinkState LINK_DOWN opened0))) = LINK_DOWN \<and>
   promisc (m_DeviceInfo opened0) = PROMISC_DISABLE \<and>
   fst (setPromiscuous PROMISC_ENABLE opened0) \<and>
   fst (getPromiscuous INFO_CACHED (snd (setPromiscuous PROMISC_ENABLE opened0))) = PROMISC_ENABLE \<and>
   \<not> fst (setLinkState LINK_ERROR opened0) \<and>
   fst (getLinkState INFO_RENEW refused0) = LINK_UP \<and>
   fst (getPromiscuous INFO_RENEW refused0) = PROMISC_DISABLE \<and>
   fst (getMacAddress INFO_RENEW refused0) = MacAddress_Zero \<and>
   \<not> fst (setMacAddress mac0 refused0) \<and>
   fst (getMacAddress INFO_CACHED (snd (setMacAddress mac0 refused0))) = MacAddress_Zero \<and>
   \<not> fst (setPromiscuous PROMISC_ENABLE refused0) \<and>
   fst (getPromiscuous INFO_CACHED (snd (setPromiscuous PROMISC_ENABLE refused0))) = PROMISC_DISABLE"
proof -
  note f = attribute_cache_consistency
    [where s = refused0 and l = LINK_DOWN and m = mac0 and u = 9000 and p = PROMISC_ENABLE]
  note g = attribute_cache_consistency
    [where s = kernel0 and l = LINK_DOWN and m = mac0 and u = 9000 and p = PROMISC_ENABLE]
  note h = attribute_cache_consistency
    [where s = opened0 and l = LINK_DOWN and m = mac0 and u = 9000 and p = PROMISC_ENABLE]
  note e = attribute_cache_consistency
    [where s = opened0 and l = LINK_ERROR and m = mac0 and u = 9000 and p = PROMISC_ENABLE]
  have r: "\<not> fst (soc_reply refused0 k op req)" for k op req
    by (simp add: refused0_fields)
  have a: "fst (soc_reply kernel0 k op req)" for k op req
    by (simp add: kernel0_fields)
  have b: "fst (soc_reply opened0 k op req)" for k op req
    by (simp add: opened0_kernel)
  have f1: "fst (getMtu INFO_RENEW refused0) = 1500"
    "mtu (m_DeviceInfo (snd (getMtu INFO_RENEW refused0))) = 1500"
    using f [THEN conjunct2, THEN conjunct2, THEN conjunct1, THEN mp, OF r]
    by (simp_all add: refused0_fields)
  have f2: "\<not> fst (setMtu 9000 refused0)"
    using f [THEN conjunct2, THEN conjunct2, THEN conjunct2, THEN conjunct2, THEN conjunct2, THEN
      conjunct2, THEN conjunct2, THEN conjunct2, THEN conjunct2, THEN conjunct2, THEN conjunct2,
      THEN conjunct2, THEN conjunct2, THEN conjunct2, THEN conjunct2, THEN conjunct2, THEN
      conjunct2, THEN conjunct1, THEN mp, OF r] .
  have f3: "fst (getMtu INFO_CACHED (snd (setMtu 9000 refused0))) = 1500"
    using f [THEN conjunct2, THEN conjunct2, THEN conjunct2, THEN conjunct2, THEN conjunct2, THEN
      conjunct2, THEN conjunct2, THEN conjunct2, THEN conjunct2, THEN conjunct2, THEN conjunct2,
      THEN conjunct2, THEN conjunct2, THEN conjunct1, THEN mp, OF f2]
    by (simp add: getMtu_def refused0_fields)
  have f4: "\<not> fst (setLinkState LINK_DOWN refused0)"
    using f [THEN conjunct2, THEN conjunct2, THEN conjunct2, THEN conjunct2, THEN conjunct2, THEN
      conjunct2, THEN conjunct2, THEN conjunct2, THEN conjunct2, THEN conjunct2, THEN conjunct2,
      THEN conjunct2, THEN conjunct2, THEN conjunct2, THEN conjunct2, THEN conjunct1] r by blast
  have f5: "fst (getLinkState INFO_CACHED (snd (setLinkState LINK_DOWN refused0))) = LINK_UP"
    using f [THEN conjunct2, THEN conjunct2, THEN conjunct2, THEN conjunct2, THEN conjunct2, THEN
      conjunct2, THEN conjunct2, THEN conjunct2, THEN conjunct2, THEN conjunct2, THEN conjunct2,
      THEN conjunct1, THEN mp, OF f4]
    by (simp add: getLinkState_def refused0_fields)
  have g1: "fst (getLinkState INFO_RENEW kernel0) = LINK_UP"
    "link (m_DeviceInfo (snd (getLinkState INFO_RENEW kernel0))) = LINK_UP"
    "fst (getPromiscuous INFO_RENEW kernel0) = PROMISC_ENABLE"
    "promisc (m_DeviceInfo (snd (getPromiscuous INFO_RENEW kernel0))) = PROMISC_ENABLE"
    using g [THEN conjunct2, THEN conjunct2, THEN conjunct2, THEN conjunct1, THEN mp, OF a]
    by (simp_all add: kernel0_fields IFF_UP_def IFF_PROMISC_def)
  have g2: "fst (getMacAddress INFO_RENEW kernel0) = \<lparr>mac_bytes = [2, 0, 0, 0, 0, 1], isValid = True\<rparr>"
    "mac (m_DeviceInfo (snd (getMacAddress INFO_RENEW kernel0))) =
       \<lparr>mac_bytes = [2, 0, 0, 0, 0, 1], isValid = True\<rparr>"
    using g [THEN conjunct2, THEN conjunct2, THEN conjunct2, THEN conjunct2, THEN conjunct1, THEN mp, OF a]
    by (simp_all add: kernel0_fields MacAddress_of_bytes_def)
  have g3: "fst (getMtu INFO_RENEW kernel0) = 9000"
    "mtu (m_DeviceInfo (snd (getMtu INFO_RENEW kernel0))) = 9000"
    using g [THEN conjunct2, THEN conjunct2, THEN conjunct2, THEN conjunct2, THEN conjunct2, THEN
      conjunct1, THEN mp, OF a]
    by (simp_all add: kernel0_fields)
  have h1: "fst (setMtu 9000 opened0)"
    using h [THEN conjunct2, THEN conjunct2, THEN conjunct2, THEN conjunct2, THEN conjunct2, THEN
      conjunct2, THEN conjunct2, THEN conjunct2, THEN conjunct2, THEN conjunct2, THEN conjunct2,
      THEN conjunct2, THEN conjunct2, THEN conjunct2, THEN conjunct2, THEN conjunct2, THEN
      conjunct2, THEN conjunct2, THEN conjunct2, THEN conjunct2, THEN conjunct2, THEN conjunct1, THEN mp, OF b] by simp
  have h2: "fst (getMtu INFO_CACHED (snd (setMtu 9000 opened0))) = 9000"
    using h [THEN conjunct2, THEN conjunct2, THEN conjunct2, THEN conjunct2, THEN conjunct2, THEN
      conjunct2, THEN conjunct2, THEN conjunct2, THEN conjunct2, THEN conjunct1, THEN mp, OF h1] .
  have v: "isValid mac0" by (simp add: mac0_def)
  have h3: "fst (setMacAddress mac0 opened0)"
    using h [THEN conjunct2, THEN conjunct2, THEN conjunct2, THEN conjunct2, THEN conjunct2, THEN
      conjunct2, THEN conjunct2, THEN conjunct2, THEN conjunct2, THEN conjunct2, THEN conjunct2,
      THEN conjunct2, THEN conjunct2, THEN conjunct2, THEN conjunct2, THEN conjunct2, THEN
      conjunct2, THEN conjunct2, THEN conjunct2, THEN conjunct2, THEN conjunct1] v b by blast
  have h4: "fst (getMacAddress INFO_CACHED (snd (setMacAddress mac0 opened0))) = mac0"
    using h [THEN conjunct2, THEN conjunct2, THEN conjunct2, THEN conjunct2, THEN conjunct2, THEN
      conjunct2, THEN conjunct2, THEN conjunct2, THEN conjunct1, THEN mp, OF h3] .
  have h5: "fst (setLinkState LINK_DOWN opened0)"
    using h [THEN conjunct2, THEN conjunct2, THEN conjunct2, THEN conjunct2, THEN conjunct2, THEN
      conjunct2, THEN conjunct2, THEN conjunct2, THEN conjunct2, THEN conjunct2, THEN conjunct2,
      THEN conjunct2, THEN conjunct2, THEN conjunct2, THEN conjunct2, THEN conjunct2, THEN
      conjunct2, THEN conjunct2, THEN conjunct2, THEN conjunct1] b by blast
  have h6: "fst (getLinkState INFO_CACHED (snd (setLinkState LINK_DOWN opened0))) = LINK_DOWN"
    using h [THEN conjunct2, THEN conjunct2, THEN conjunct2, THEN conjunct2, THEN conjunct2, THEN
      conjunct2, THEN conjunct2, THEN conjunct1, THEN mp, OF h5] .
  have h7: "fst (setPromiscuous PROMISC_ENABLE opened0)"
    using h [THEN conjunct2, THEN conjunct2, THEN conjunct2, THEN conjunct2, THEN conjunct2, THEN
      conjunct2, THEN conjunct2, THEN conjunct2, THEN conjunct2, THEN conjunct2, THEN conjunct2,
      THEN conjunct2, THEN conjunct2, THEN conjunct2, THEN conjunct2, THEN conjunct2, THEN
      conjunct2, THEN conjunct2, THEN conjunct2, THEN conjunct2, THEN conjunct2, THEN conjunct2] b by blast
  have h8: "fst (getPromiscuous INFO_CACHED (snd (setPromiscuous PROMISC_ENABLE opened0))) =
      PROMISC_ENABLE"
    using h [THEN conjunct2, THEN conjunct2, THEN conjunct2, THEN conjunct2, THEN conjunct2, THEN
      conjunct2, THEN conjunct2, THEN conjunct2, THEN conjunct2, THEN conjunct2, THEN conjunct1, THEN mp, OF h7] .
  have e1: "\<not> fst (setLinkState LINK_ERROR opened0)"
    using e [THEN conjunct2, THEN conjunct2, THEN conjunct2, THEN conjunct2, THEN conjunct2, THEN
      conjunct2, THEN conjunct2, THEN conjunct2, THEN conjunct2, THEN conjunct2, THEN conjunct2,
      THEN conjunct2, THEN conjunct2, THEN conjunct2, THEN conjunct2, THEN conjunct1] by simp
  have f6: "fst (getLinkState INFO_RENEW refused0) = LINK_UP"
    "fst (getPromiscuous INFO_RENEW refused0) = PROMISC_DISABLE"
    using f [THEN conjunct1, THEN mp, OF r]
    by (simp_all add: refused0_fields)
  have f7: "fst (getMacAddress INFO_RENEW refused0) = MacAddress_Zero"
    using f [THEN conjunct2, THEN conjunct1, THEN mp, OF r]
    by (simp add: refused0_fields)
  have f8: "\<not> fst (setMacAddress mac0 refused0)"
    using f [THEN conjunct2, THEN conjunct2, THEN conjunct2, THEN conjunct2, THEN conjunct2, THEN
      conjunct2, THEN conjunct2, THEN conjunct2, THEN conjunct2, THEN conjunct2, THEN conjunct2,
      THEN conjunct2, THEN conjunct2, THEN conjunct2, THEN conjunct2, THEN conjunct2, THEN
      conjunct1] r by blast
  have f9: "fst (getMacAddress INFO_CACHED (snd (setMacAddress mac0 refused0))) = MacAddress_Zero"
    using f [THEN conjunct2, THEN conjunct2, THEN conjunct2, THEN conjunct2, THEN conjunct2, THEN
      conjunct2, THEN conjunct2, THEN conjunct2, THEN conjunct2, THEN conjunct2, THEN conjunct2,
      THEN conjunct2, THEN conjunct1, THEN mp, OF f8]
    by (simp add: getMacAddress_def refused0_fields)
  have f10: "\<not> fst (setPromiscuous PROMISC_ENABLE refused0)"
    using f [THEN conjunct2, THEN conjunct2, THEN conjunct2, THEN conjunct2, THEN conjunct2, THEN
      conjunct2, THEN conjunct2, THEN conjunct2, THEN conjunct2, THEN conjunct2, THEN conjunct2,
      THEN conjunct2, THEN conjunct2, THEN conjunct2, THEN conjunct2, THEN conjunct2, THEN
      conjunct2, THEN conjunct2, THEN conjunct1] r by blast
  have f11: "fst (getPromiscuous INFO_CACHED (snd (setPromiscuous PROMISC_ENABLE refused0))) =
      PROMISC_DISABLE"
    using f [THEN conjunct2, THEN conjunct2, THEN conjunct2, THEN conjunct2, THEN conjunct2, THEN
      conjunct2, THEN conjunct2, THEN conjunct2, THEN conjunct2, THEN conjunct2, THEN conjunct2,
      THEN conjunct2, THEN conjunct2, THEN conjunct2, THEN conjunct1, THEN mp, OF f10]
    by (simp add: getPromiscuous_def refused0_fields)
  show ?thesis
    by (intro conjI)
      (fact f1 f2 f3 f4 f5 g1 g2 g3 h1 h2 h3 h4 h5 h6 h7 h8 e1 kernel0_fields opened0_fields
         f6 f7 f8 f9 f10 f11)+
qed


text \<open>
  Claim C10 (no redundant flags write). When \<open>setLinkState\<close> is called with \<open>LINK_DOWN\<close> or
  \<open>LINK_UP\<close>, the kernel's flags read succeeds and the \<open>IFF_UP\<close> bit already agrees with the
  requested state, the call returns true and changes two things only: the request trace
  grows by the one \<open>SIOCGIFFLAGS\<close> read (no \<open>SIOCSIFFLAGS\<close> is issued) and the cached link
  state becomes the requested one. The same for \<open>setPromiscuous\<close> and the \<open>IFF_PROMISC\<close> bit.
\<close>

theorem set_flags_already_matching:
  "((state = LINK_DOWN \<or> state = LINK_UP) \<and>
    soc_reply s (length (soc_trace s)) SIOCGIFFLAGS ifreq_zero = (True, req) \<and>
    (ifr_flags req AND IFF_UP \<noteq> 0) = (state = LINK_UP) \<longrightarrow>
      setLinkState state s =
        (True, s\<lparr>soc_trace := soc_trace s @ [(SIOCGIFFLAGS, ifreq_zero)],
                 m_DeviceInfo := (m_DeviceInfo s)\<lparr>link := state\<rparr>\<rparr>)) \<and>
   ((mode = PROMISC_DISABLE \<or> mode = PROMISC_ENABLE) \<and>
    soc_reply s (length (soc_trace s)) SIOCGIFFLAGS ifreq_zero = (True, req) \<and>
    (ifr_flags req AND IFF_PROMISC \<noteq> 0) = (mode = PROMISC_ENABLE) \<longrightarrow>
      setPromiscuous mode s =
        (True, s\<lparr>soc_trace := soc_trace s @ [(SIOCGIFFLAGS, ifreq_zero)],
                 m_DeviceInfo := (m_DeviceInfo s)\<lparr>promisc := mode\<rparr>\<rparr>))"
  using setLinkState_flags_match [of state s req] setPromiscuous_flags_match [of mode s req]
  by blast

text \<open>
  The theorem at work: the kernel reports flags \<open>0x101\<close> (up and promiscuous) while the
  cache of the freshly constructed device says \<open>LINK_NOT_SUPPORTED\<close> and
  \<open>PROMISC_DISABLE\<close>; setting \<open>LINK_UP\<close> and \<open>PROMISC_ENABLE\<close> issues the read only and
  overwrites the cache.
\<close>

theorem set_flags_already_matching_witness:
  "link (m_DeviceInfo flags0) = LINK_NOT_SUPPORTED \<and>
   promisc (m_DeviceInfo flags0) = PROMISC_DISABLE \<and>
   fst (setLinkState LINK_UP flags0) \<and>
   soc_trace (snd (setLinkState LINK_UP flags0)) = [(SIOCGIFFLAGS, ifreq_zero)] \<and>
   link (m_DeviceInfo (snd (setLinkState LINK_UP flags0))) = LINK_UP \<and>
   fst (setPromiscuous PROMISC_ENABLE flags0) \<and>
   soc_trace (snd (setPromiscuous PROMISC_ENABLE flags0)) = [(SIOCGIFFLAGS, ifreq_zero)] \<and>
   promisc (m_DeviceInfo (snd (setPromiscuous PROMISC_ENABLE flags0))) = PROMISC_ENABLE"
proof -
  have h: "soc_reply flags0 (length (soc_trace flags0)) SIOCGIFFLAGS ifreq_zero =
             (True, ifreq_zero\<lparr>ifr_flags := 0x101\<rparr>)"
    "soc_trace flags0 = []"
    "link (m_DeviceInfo flags0) = LINK_NOT_SUPPORTED"
    "promisc (m_DeviceInfo flags0) = PROMISC_DISABLE"
    by (simp_all add: flags0_def world_defs)
  have b: "(ifr_flags (ifreq_zero\<lparr>ifr_flags := 0x101\<rparr>) AND IFF_UP \<noteq> 0) = (LINK_UP = LINK_UP)"
    "(ifr_flags (ifreq_zero\<lparr>ifr_flags := 0x101\<rparr>) AND IFF_PROMISC \<noteq> 0) = (PROMISC_ENABLE = PROMISC_ENABLE)"
    by (simp_all add: IFF_UP_def IFF_PROMISC_def)
  note t = set_flags_already_matching
    [of LINK_UP flags0 "ifreq_zero\<lparr>ifr_flags := 0x101\<rparr>" PROMISC_ENABLE]
  have l: "setLinkState LINK_UP flags0 =
      (True, flags0\<lparr>soc_trace := soc_trace flags0 @ [(SIOCGIFFLAGS, ifreq_zero)],
                     m_DeviceInfo := (m_DeviceInfo flags0)\<lparr>link := LINK_UP\<rparr>\<rparr>)"
    using t [THEN conjunct1] h(1) b(1) by blast
  have p: "setPromiscuous PROMISC_ENABLE flags0 =
      (True, flags0\<lparr>soc_trace := soc_trace flags0 @ [(SIOCGIFFLAGS, ifreq_zero)],
                     m_DeviceInfo := (m_DeviceInfo flags0)\<lparr>promisc := PROMISC_ENABLE\<rparr>\<rparr>)"
    using t [THEN conjunct2] h(1) b(2) by blast
  show ?thesis
    by (simp add: l p h)
qed

subsection \<open>Receive while capturing\<close>

text \<open>
  Claim C6 (capture excludes direct receive). While a capture worker exists
  (\<open>isRunning\<close>), each of the three \<open>receivePackets\<close> variants returns 0, hands back the
  caller's output untouched, and leaves the device and the world as they were except
  for one more \<open>LOG_ERROR\<close> record: in particular \<open>rx_trace\<close> is unchanged, so the engine's
  RX primitive was not called and no buffer left the ring.
\<close>

theorem receive_excluded_while_capturing:
  "isRunning s \<longrightarrow>
     (\<exists>e. receivePackets_vec vec s = Inr (0, vec, s\<lparr>log := log s @ [LOG_ERROR e]\<rparr>)) \<and>
     (\<exists>e. receivePackets_arr arr n s = Inr (0, arr, s\<lparr>log := log s @ [LOG_ERROR e]\<rparr>)) \<and>
     (\<exists>e. receivePackets_pkt parr n' s = Inr (0, parr, s\<lparr>log := log s @ [LOG_ERROR e]\<rparr>))"
  by (auto simp add: receivePackets_vec_def receivePackets_arr_def receivePackets_pkt_def LOG_def)

text \<open>
  The theorem at work: after \<open>startCapture\<close> on the opened device, with two buffers
  waiting in the ring, a receive into a vector returns 0 and polls nothing.
\<close>

theorem receive_excluded_while_capturing_witness:
  "isRunning (capturing0\<lparr>rx_reply := (\<lambda>k. [10, 11])\<rparr>) \<and>
   (\<exists>e. receivePackets_vec [] (capturing0\<lparr>rx_reply := (\<lambda>k. [10, 11])\<rparr>) =
      Inr (0, [], capturing0\<lparr>rx_reply := (\<lambda>k. [10, 11]),
                             log := log (capturing0\<lparr>rx_reply := (\<lambda>k. [10, 11])\<rparr>) @ [LOG_ERROR e]\<rparr>)) \<and>
   rx_trace (capturing0\<lparr>rx_reply := (\<lambda>k. [10, 11])\<rparr>) = []"
proof -
  have c: "m_Capturing_thread capturing0 = Some 0" "rx_trace capturing0 = []"
    by (simp_all add: capturing0_def startCapture_def KniThread_new_def Let_def world_defs)
  have h: "isRunning (capturing0\<lparr>rx_reply := (\<lambda>k. [10, 11])\<rparr>)"
    by (simp add: isRunning_def c)
  from receive_excluded_while_capturing
    [of "capturing0\<lparr>rx_reply := (\<lambda>k. [10, 11])\<rparr>" "[]" None 0 "\<lambda>i. None" 0] h
  have "\<exists>e. receivePackets_vec [] (capturing0\<lparr>rx_reply := (\<lambda>k. [10, 11])\<rparr>) =
      Inr (0, [], capturing0\<lparr>rx_reply := (\<lambda>k. [10, 11]),
                             log := log (capturing0\<lparr>rx_reply := (\<lambda>k. [10, 11])\<rparr>) @ [LOG_ERROR e]\<rparr>)"
    by simp
  with h c show ?thesis by simp
qed

subsection \<open>Opening the device\<close>

text \<open>What \<open>open\<close> does: a device that is already opened is refused and only the log grows;
  a device that is not opened is opened whenever the cached link state is not
  \<open>LINK_ERROR\<close>, whatever \<open>updateLinkState\<close> answered.\<close>

lemma open_already_opened:
  "m_DeviceOpened s \<Longrightarrow>
     open s = (False, s\<lparr>log := log s @ [LOG_ERROR ''KNI device is already opened'']\<rparr>)"
  by (simp add: open_def LOG_def)

lemma updateLinkState_link:
  "link (m_DeviceInfo (snd (updateLinkState st s))) = link (m_DeviceInfo s) \<or>
   link (m_DeviceInfo (snd (updateLinkState st s))) = st \<and> (st = LINK_UP \<or> st = LINK_DOWN)"
  by (auto simp add: updateLinkState_def setKniDeviceLinkState_def rte_kni_update_link_def LOG_def
      split: prod.splits if_splits)

lemma open_not_opened:
  assumes "\<not> m_DeviceOpened s" and "link (m_DeviceInfo s) \<noteq> LINK_ERROR"
  shows "fst (open s)" and "m_DeviceOpened (snd (open s))"
proof -
  obtain r s1 where u: "updateLinkState LINK_UP s = (r, s1)"
    by (cases "updateLinkState LINK_UP s")
  from updateLinkState_link [of LINK_UP s] u assms(2)
  have "link (m_DeviceInfo s1) \<noteq> LINK_ERROR" by auto
  with assms(1) u show "fst (open s)" and "m_DeviceOpened (snd (open s))"
    by (auto simp add: open_def split: KniLinkState.splits)
qed

text \<open>
  Claim C4 (open) at a failing input. The device is constructed and not opened, its
  handle is live, and the engine's link update fails, so \<open>updateLinkState LINK_UP\<close>
  returns \<open>LINK_ERROR\<close>. The claim has \<open>open\<close> return false and leave the device not
  opened; the code returns true and sets \<open>m_DeviceOpened\<close>, because it discards the result
  of \<open>updateLinkState\<close> and reads the cached link state, which an error never touches.
\<close>

theorem open_ignores_link_error:
  "\<not> m_DeviceOpened linkerror0 \<and>
   m_Device linkerror0 = Some 1 \<and>
   fst (updateLinkState LINK_UP linkerror0) = LINK_ERROR \<and>
   fst (open linkerror0) = True \<and>
   m_DeviceOpened (snd (open linkerror0)) = True"
  by (simp add: linkerror0_def world_defs)

text \<open>
  Claim C5 (null handle) at a failing input. \<open>rte_kni_alloc\<close> answered null, so the
  constructor leaves \<open>m_Device\<close> null. The claim has \<open>open\<close> return false on such a
  device; the code returns true and marks the device opened (\<open>setKniDeviceLinkState\<close>
  answers \<open>LINK_ERROR\<close> for the null handle, and \<open>open\<close> does not look at it), after which a
  receive is no longer a no-op: it hands the null handle to the engine's RX primitive.
\<close>

theorem null_handle_device_opens:
  "m_Device nullhandle0 = None \<and>
   \<not> m_DeviceOpened nullhandle0 \<and>
   fst (updateLinkState LINK_UP nullhandle0) = LINK_ERROR \<and>
   fst (open nullhandle0) = True \<and>
   m_DeviceOpened (snd (open nullhandle0)) = True \<and>
   receivePackets_vec [] (snd (open nullhandle0)) = Inl NullHandle"
  by (simp add: nullhandle0_def world_defs receivePackets_vec_def isRunning_def
      rte_kni_rx_burst_def)

subsection \<open>The size of a receive burst\<close>

text \<open>
  Claim C2 (burst request) at a failing input. The device is opened, no capture runs,
  two buffers wait in the ring, and the caller's array has one cell, all null. The
  claim has the call request at most \<open>min 1 64 = 1\<close> buffer and return at most 1; the code
  requests \<open>MAX_BURST_SIZE = 64\<close> (the only entry of \<open>rx_trace\<close>), returns 2, and writes
  cell 1, which lies behind the caller's array; before that the engine has written two
  buffers into the stack array of one cell (\<open>stack_overrun\<close>). Both array variants do so.
\<close>

theorem receivePackets_requests_full_burst:
  "(case receivePackets_arr (Some (\<lambda>i. None)) 1 pending0 of
      Inr (n, Some arr, s') \<Rightarrow>
        n = 2 \<and> rx_trace s' = [64] \<and> arr 1 \<noteq> None \<and> stack_overrun s' = [(1, 2)]
    | _ \<Rightarrow> False) \<and>
   (case receivePackets_pkt (\<lambda>i. None) 1 pending0 of
      Inr (n, arr, s') \<Rightarrow>
        n = 2 \<and> rx_trace s' = [64] \<and> arr 1 \<noteq> None \<and> stack_overrun s' = [(1, 2)]
    | _ \<Rightarrow> False)"
  by (simp add: pending0_def world_defs receivePackets_arr_def receivePackets_pkt_def
      isRunning_def rte_kni_rx_burst_def MAX_BURST_SIZE_def gettimeofday_def
      CPP_VLA_written_def Let_def
      receivePackets_arr_loop.simps receivePackets_pkt_loop.simps)

subsection \<open>A worker thread that does not start\<close>

text \<open>
  Claim C9 (spawn failure) at a failing input. The device is opened, no worker exists,
  and the first \<^verbatim>\<open>pthread_create\<close> fails. \<open>startRequestHandlerThread\<close> rolls back as the
  claim says: it returns false, \<open>m_Requests_thread\<close> is null again, and the next attempt
  succeeds. \<open>startCapture\<close> returns false too, but it deletes the \<^verbatim>\<open>KniThread\<close> and keeps the
  pointer: \<open>m_Capturing_thread\<close> is not null and points at nothing in the heap, the
  callback stays set, and the next \<open>startCapture\<close> is refused as already capturing without
  trying to start a thread.
\<close>

theorem startCapture_spawn_failure_not_rolled_back:
  "(case startRequestHandlerThread 1 0 nospawn0 of
      Inr (r, s1) \<Rightarrow>
        r = False \<and> m_Requests_thread s1 = None \<and>
        (case startRequestHandlerThread 1 0 s1 of Inr (r2, s2) \<Rightarrow> r2 = True | Inl f \<Rightarrow> False)
    | Inl f \<Rightarrow> False) \<and>
   (case startCapture (Some (\<lambda>k pkts cookie. True)) 0 nospawn0 of
      Inr (r, s1) \<Rightarrow>
        r = False \<and> m_Capturing_thread s1 = Some 0 \<and> heap s1 0 = None \<and>
        m_Capturing_callback s1 \<noteq> None \<and>
        (case startCapture (Some (\<lambda>k pkts cookie. True)) 0 s1 of
           Inr (r2, s2) \<Rightarrow>
             r2 = False \<and>
             log s2 = log s1 @ [LOG_ERROR ''KNI device is already capturing''] \<and>
             pthread_create_trace s2 = pthread_create_trace s1
         | Inl f \<Rightarrow> False)
    | Inl f \<Rightarrow> False)"
  by (simp add: nospawn0_def world_defs startCapture_def startRequestHandlerThread_def
      KniThread_new_def KniThread_delete_def Requests_cleanup_def cancel_def Let_def)

subsection \<open>Bursts and their timestamps\<close>






lemma burst_count:
  "n \<le> 64 \<Longrightarrow> unat (of_nat n :: 16 word) = n"
  by (simp add: unat_of_nat)

lemma burst_count_zero:
  "n \<le> 64 \<Longrightarrow> ((of_nat n :: 16 word) \<le> 0) = (n = 0)"
  using burst_count [of n] by (metis unat_eq_0 word_le_0_iff unat_0)



lemma setMBuf_stamp [simp]: "m_TimeStamp (setMBuf m t p) = t"
  by (simp add: setMBuf_def)





lemma CPP_VLA_written_fields [simp]:
  "rx_trace (CPP_VLA_written c w s) = rx_trace s"
  "gettimeofday_trace (CPP_VLA_written c w s) = gettimeofday_trace s"
  "gettimeofday_reply (CPP_VLA_written c w s) = gettimeofday_reply s"
  by (simp_all add: CPP_VLA_written_def)











lemma MBufRawPacket_delete_frame:
  "\<exists>tr. MBufRawPacket_delete p s = s\<lparr>mbuf_free_trace := tr\<rparr>"
proof (cases "m_MBuf p \<noteq> None \<and> m_FreeMbuf p")
  case True
  then show ?thesis by (auto simp add: MBufRawPacket_delete_def)
next
  case False
  then have "MBufRawPacket_delete p s = s\<lparr>mbuf_free_trace := mbuf_free_trace s\<rparr>"
    by (auto simp add: MBufRawPacket_delete_def split: option.splits)
  then show ?thesis by blast
qed




lemma stamped_timestamps: "p \<in> set (stamped time b) \<Longrightarrow> m_TimeStamp p = time"
  by (auto simp add: stamped_def)












subsection \<open>Capture in blocking mode\<close>


lemma bursts_before_0 [simp]: "bursts_before s 0 = 0"
  by (simp add: bursts_before_def)




















subsection \<open>The handoff of buffers on transmit\<close>

text \<open>
  The marking loops in closed form: a slot of the range gets the mark \<open>sent \<le> k\<close>, the
  other cells stay. The 16-bit counters of the vector variants count like natural
  numbers as long as the vector has fewer than \<open>2^16\<close> items.
\<close>

lemma setFreeMbuf_fields [simp]:
  "m_FreeMbuf (setFreeMbuf b p) = b" "m_MBuf (setFreeMbuf b p) = m_MBuf p"
  "m_TimeStamp (setFreeMbuf b p) = m_TimeStamp p"
  by (simp_all add: setFreeMbuf_def)

lemma sendPackets_mark_loop_eq:
  "sendPackets_mark_loop i n sent arr k =
     (if i \<le> k \<and> k < n then setFreeMbuf (unat sent \<le> k) (arr k) else arr k)"
proof (induction i n sent arr rule: sendPackets_mark_loop.induct)
  case (1 i n sent arr)
  show ?case
  proof (cases "i < n")
    case True
    define arr' where "arr' = arr(i := setFreeMbuf (unat sent \<le> i) (arr i))"
    have "sendPackets_mark_loop i n sent arr k = sendPackets_mark_loop (Suc i) n sent arr' k"
      using True by (subst sendPackets_mark_loop.simps) (simp add: arr'_def)
    also have "\<dots> = (if Suc i \<le> k \<and> k < n then setFreeMbuf (unat sent \<le> k) (arr' k) else arr' k)"
      using "1" [OF True] by (simp only: arr'_def)
    finally show ?thesis
      using True by (auto simp add: arr'_def)
  next
    case False
    then show ?thesis
      by (subst sendPackets_mark_loop.simps) auto
  qed
qed

lemma unat_succ16:
  "unat (w :: 16 word) < 65535 \<Longrightarrow> unat (w + 1) = Suc (unat w)"
  using unat_add_lem [of w 1] by simp

lemma sendPackets_mvec_mark_length [simp]:
  "length (sendPackets_mvec_mark pos sent ps) = length ps"
  by (induction ps arbitrary: pos) simp_all

lemma sendPackets_mvec_mark_nth:
  "unat pos + length ps \<le> 65536 \<Longrightarrow> k < length ps \<Longrightarrow>
     sendPackets_mvec_mark pos sent ps ! k = setFreeMbuf (unat sent \<le> unat pos + k) (ps ! k)"
proof (induction ps arbitrary: pos k)
  case Nil
  then show ?case by simp
next
  case (Cons p ps)
  show ?case
  proof (cases k)
    case 0
    then show ?thesis by (simp add: word_le_nat_alt)
  next
    case (Suc k')
    with Cons.prems have k': "k' < length ps" by simp
    with Cons.prems have "unat pos < 65535" by simp
    then have u: "unat (pos + 1) = Suc (unat pos)" by (rule unat_succ16)
    with Cons.prems have "unat (pos + 1) + length ps \<le> 65536" by simp
    from Cons.IH [OF this k'] Suc u show ?thesis by simp
  qed
qed

lemma sendPackets_rvec_mark_eq:
  "unat i \<le> n \<Longrightarrow> n < 65536 \<Longrightarrow>
     sendPackets_rvec_mark i n sent arr =
       Some (\<lambda>k. if unat i \<le> k \<and> k < n then setFreeMbuf (unat sent \<le> k) (arr k) else arr k)"
proof (induction m \<equiv> "n - unat i" arbitrary: i arr)
  case 0
  then have "unat i = n" by simp
  then show ?case
    by (subst sendPackets_rvec_mark.simps) (auto simp add: fun_eq_iff)
next
  case (Suc m)
  then have lt: "unat i < n" by simp
  with Suc.prems have "unat i < 65535" by simp
  then have u: "unat (i + 1) = Suc (unat i)" by (rule unat_succ16)
  define arr' where "arr' = arr(unat i := setFreeMbuf (sent \<le> i) (arr (unat i)))"
  have m: "m = n - unat (i + 1)" "unat (i + 1) \<le> n"
    using Suc.hyps(2) lt u by simp_all
  have "sendPackets_rvec_mark i n sent arr = sendPackets_rvec_mark (i + 1) n sent arr'"
    using lt by (subst sendPackets_rvec_mark.simps) (simp add: arr'_def)
  also have "\<dots> = Some (\<lambda>k. if unat (i + 1) \<le> k \<and> k < n
                           then setFreeMbuf (unat sent \<le> k) (arr' k) else arr' k)"
    by (rule Suc.hyps(1) [OF m Suc.prems(2)])
  also have "(\<lambda>k. if unat (i + 1) \<le> k \<and> k < n
                           then setFreeMbuf (unat sent \<le> k) (arr' k) else arr' k) =
             (\<lambda>k. if unat i \<le> k \<and> k < n then setFreeMbuf (unat sent \<le> k) (arr k) else arr k)"
    using lt by (auto simp add: arr'_def u word_le_nat_alt fun_eq_iff)
  finally show ?case .
qed

lemma tx_count:
  "m \<le> n \<Longrightarrow> n < 65536 \<Longrightarrow> unat (of_nat m :: 16 word) = m"
  by (simp add: unat_of_nat)


lemma tx_burst_live:
  "kni = Some h \<Longrightarrow>
     rte_kni_tx_burst kni mbufs num s =
       Inr (min num (tx_reply s (length (tx_trace s))), s\<lparr>tx_trace := tx_trace s @ [take num mbufs]\<rparr>)"
  by (simp add: rte_kni_tx_burst_def)

lemma unat16_bound: "unat (n :: 16 word) < 65536"
  using unsigned_less [of n, where 'a = nat] by simp

lemma sendPackets_arr_handoff:
  assumes "m_DeviceOpened s" and "m_Device s = Some h"
  shows "\<exists>sent arr' s'. sendPackets_arr arr n s = Inr (sent, arr', s') \<and>
           unat sent \<le> unat n \<and>
           (\<forall>k<unat n. m_FreeMbuf (arr' k) = (unat sent \<le> k) \<and> m_MBuf (arr' k) = m_MBuf (arr k)) \<and>
           (\<forall>k\<ge>unat n. arr' k = arr k)"
proof -
  define r where "r = min (unat n) (tx_reply s (length (tx_trace s)))"
  have u: "unat (of_nat r :: 16 word) = r"
    by (rule tx_count [of r "unat n"]) (simp_all add: r_def unat16_bound)
  have "sendPackets_arr arr n s =
      Inr (of_nat r, sendPackets_mark_loop 0 (unat n) (of_nat r) arr,
           s\<lparr>tx_trace := tx_trace s @ [take (unat n) (map (\<lambda>i. getMBuf (arr i)) [0..<unat n])]\<rparr>)"
    using assms(1) by (simp add: sendPackets_arr_def tx_burst_live [OF assms(2)] r_def Let_def)
  moreover have "r \<le> unat n" by (simp add: r_def)
  ultimately show ?thesis
    by (simp add: sendPackets_mark_loop_eq u)
qed

lemma sendPackets_mvec_handoff:
  assumes "m_DeviceOpened s" and "m_Device s = Some h" and "length vec < 65536"
  shows "\<exists>sent vec' s'. sendPackets_mvec vec s = Inr (sent, vec', s') \<and>
           unat sent \<le> length vec \<and> length vec' = length vec \<and>
           (\<forall>k<length vec. m_FreeMbuf (vec' ! k) = (unat sent \<le> k) \<and>
                            m_MBuf (vec' ! k) = m_MBuf (vec ! k))"
proof -
  define r where "r = min (length vec) (tx_reply s (length (tx_trace s)))"
  have u: "unat (of_nat r :: 16 word) = r"
    by (rule tx_count [of r "length vec"]) (simp_all add: r_def assms(3))
  have m: "length vec mod 4294967296 = length vec"
    using assms(3) by simp
  have "\<exists>s'. sendPackets_mvec vec s = Inr (of_nat r, sendPackets_mvec_mark 0 (of_nat r) vec, s')"
    using assms(1) by (simp add: sendPackets_mvec_def tx_burst_live [OF assms(2)] r_def Let_def m)
  moreover have "r \<le> length vec" by (simp add: r_def)
  moreover have "\<forall>k<length vec. sendPackets_mvec_mark 0 (of_nat r) vec ! k =
      setFreeMbuf (unat (of_nat r :: 16 word) \<le> unat (0 :: 16 word) + k) (vec ! k)"
    using assms(3) by (intro allI impI sendPackets_mvec_mark_nth) simp_all
  ultimately show ?thesis
    by (auto simp add: u)
qed

lemma foreign_simps:
  "foreign (MBUFRAWPACKET p) = False" "foreign (RAWPACKET rawData) = True"
  by (simp_all add: foreign_def)

lemma initFromRawPacket_ok:
  "init_reply s (init_trace s) \<noteq> None \<Longrightarrow>
     \<exists>pkt. initFromRawPacket rawData MBufRawPacket_new s =
             (True, pkt, s\<lparr>init_trace := Suc (init_trace s)\<rparr>)"
  by (auto simp add: initFromRawPacket_def)

lemma sendPackets_pkt_prepare_ok:
  assumes "\<forall>j<length (filter (\<lambda>k. converts (parr k)) [i..<n]).
             init_reply s (init_trace s + j) \<noteq> None"
    and "\<forall>k. i \<le> k \<and> k < n \<longrightarrow> m_RawPacket (parr k) \<noteq> None"
  shows "\<exists>arr' al' s'. sendPackets_pkt_prepare i n parr arr al s = Inr (True, arr', al', s') \<and>
           m_Device s' = m_Device s \<and> tx_reply s' = tx_reply s \<and> tx_trace s' = tx_trace s \<and>
           (\<forall>k. i \<le> k \<and> k < n \<longrightarrow>
                (\<forall>p. m_RawPacket (parr k) = Some (MBUFRAWPACKET p) \<longrightarrow> arr' k = p)) \<and>
           (\<forall>k<i. arr' k = arr k)"
  using assms
proof (induction m \<equiv> "n - i" arbitrary: i arr al s)
  case 0
  then have "\<not> i < n" by simp
  then show ?case
    by (subst sendPackets_pkt_prepare.simps) auto
next
  case (Suc m)
  then have lt: "i < n" by simp
  have m: "m = n - Suc i" using Suc.hyps(2) by simp
  have rest: "\<forall>k. Suc i \<le> k \<and> k < n \<longrightarrow> m_RawPacket (parr k) \<noteq> None"
    using Suc.prems(2) by simp
  from Suc.prems(2) lt obtain raw where raw: "m_RawPacket (parr i) = Some raw" by auto
  have up: "[i..<n] = i # [Suc i..<n]" using lt by (rule upt_conv_Cons)
  show ?case
  proof (cases raw)
    case (MBUFRAWPACKET p)
    have "\<not> converts (parr i)" using raw MBUFRAWPACKET by (simp add: converts_def foreign_simps)
    with Suc.prems(1) have conv: "\<forall>j<length (filter (\<lambda>k. converts (parr k)) [Suc i..<n]).
             init_reply s (init_trace s + j) \<noteq> None"
      by (simp add: up)
    from Suc.hyps(1) [OF m conv rest]
    obtain arr' al' s' where
      r: "sendPackets_pkt_prepare (Suc i) n parr (arr(i := p)) al s = Inr (True, arr', al', s')"
      and f: "m_Device s' = m_Device s" "tx_reply s' = tx_reply s" "tx_trace s' = tx_trace s"
      and nat: "\<forall>k. Suc i \<le> k \<and> k < n \<longrightarrow>
                (\<forall>p. m_RawPacket (parr k) = Some (MBUFRAWPACKET p) \<longrightarrow> arr' k = p)"
      and old: "\<forall>k<Suc i. arr' k = (arr(i := p)) k"
      by blast
    have "sendPackets_pkt_prepare i n parr arr al s = Inr (True, arr', al', s')"
      using lt raw MBUFRAWPACKET r by (subst sendPackets_pkt_prepare.simps) simp
    moreover have "\<forall>k. i \<le> k \<and> k < n \<longrightarrow>
                (\<forall>q. m_RawPacket (parr k) = Some (MBUFRAWPACKET q) \<longrightarrow> arr' k = q)"
    proof (intro allI impI)
      fix k q
      assume k: "i \<le> k \<and> k < n" and q: "m_RawPacket (parr k) = Some (MBUFRAWPACKET q)"
      show "arr' k = q"
      proof (cases "k = i")
        case True
        with q raw MBUFRAWPACKET old show ?thesis by simp
      next
        case False
        with k have "Suc i \<le> k \<and> k < n" by simp
        with nat q show ?thesis by blast
      qed
    qed
    moreover have "\<forall>k<i. arr' k = arr k" using old by simp
    ultimately show ?thesis using f by blast
  next
    case (RAWPACKET rawData)
    have "converts (parr i)" using raw RAWPACKET by (simp add: converts_def foreign_simps)
    with Suc.prems(1) have all: "\<forall>j<Suc (length (filter (\<lambda>k. converts (parr k)) [Suc i..<n])).
             init_reply s (init_trace s + j) \<noteq> None"
      by (simp add: up)
    then have "init_reply s (init_trace s + 0) \<noteq> None" by blast
    then have "init_reply s (init_trace s) \<noteq> None" by simp
    from initFromRawPacket_ok [OF this] obtain pkt where
      ini: "initFromRawPacket rawData MBufRawPacket_new s =
              (True, pkt, s\<lparr>init_trace := Suc (init_trace s)\<rparr>)"
      by blast
    define s1 where "s1 = s\<lparr>init_trace := Suc (init_trace s)\<rparr>"
    have s1: "\<forall>j<length (filter (\<lambda>k. converts (parr k)) [Suc i..<n]).
             init_reply s1 (init_trace s1 + j) \<noteq> None"
    proof (intro allI impI)
      fix j assume "j < length (filter (\<lambda>k. converts (parr k)) [Suc i..<n])"
      then have "Suc j < Suc (length (filter (\<lambda>k. converts (parr k)) [Suc i..<n]))" by simp
      with all have "init_reply s (init_trace s + Suc j) \<noteq> None" by blast
      then show "init_reply s1 (init_trace s1 + j) \<noteq> None" by (simp add: s1_def)
    qed
    from Suc.hyps(1) [OF m s1 rest]
    obtain arr' al' s' where
      r: "sendPackets_pkt_prepare (Suc i) n parr (arr(i := pkt)) (al @ [i]) s1 =
            Inr (True, arr', al', s')"
      and f: "m_Device s' = m_Device s1" "tx_reply s' = tx_reply s1" "tx_trace s' = tx_trace s1"
      and nat: "\<forall>k. Suc i \<le> k \<and> k < n \<longrightarrow>
                (\<forall>p. m_RawPacket (parr k) = Some (MBUFRAWPACKET p) \<longrightarrow> arr' k = p)"
      and old: "\<forall>k<Suc i. arr' k = (arr(i := pkt)) k"
      by blast
    have "sendPackets_pkt_prepare i n parr arr al s = Inr (True, arr', al', s')"
      using lt raw RAWPACKET r ini
      by (subst sendPackets_pkt_prepare.simps) (simp add: s1_def)
    moreover have "\<forall>k. i \<le> k \<and> k < n \<longrightarrow>
                (\<forall>q. m_RawPacket (parr k) = Some (MBUFRAWPACKET q) \<longrightarrow> arr' k = q)"
    proof (intro allI impI)
      fix k q
      assume k: "i \<le> k \<and> k < n" and q: "m_RawPacket (parr k) = Some (MBUFRAWPACKET q)"
      show "arr' k = q"
      proof (cases "k = i")
        case True
        with q raw RAWPACKET show ?thesis by simp
      next
        case False
        with k have "Suc i \<le> k \<and> k < n" by simp
        with nat q show ?thesis by blast
      qed
    qed
    moreover have "\<forall>k<i. arr' k = arr k" using old by simp
    moreover have "m_Device s' = m_Device s" "tx_reply s' = tx_reply s" "tx_trace s' = tx_trace s"
      using f by (simp_all add: s1_def)
    ultimately show ?thesis by blast
  qed
qed

lemma delete_allocated_frame:
  "\<exists>tr. delete_allocated arr al s = s\<lparr>mbuf_free_trace := tr\<rparr>"
  unfolding delete_allocated_def
proof (induction al arbitrary: s)
  case Nil
  have "fold (\<lambda>j. MBufRawPacket_delete (arr j)) [] s = s\<lparr>mbuf_free_trace := mbuf_free_trace s\<rparr>"
    by simp
  then show ?case by blast
next
  case (Cons a al)
  obtain tr0 where a: "MBufRawPacket_delete (arr a) s = s\<lparr>mbuf_free_trace := tr0\<rparr>"
    using MBufRawPacket_delete_frame by blast
  obtain tr where b: "fold (\<lambda>j. MBufRawPacket_delete (arr j)) al (s\<lparr>mbuf_free_trace := tr0\<rparr>) =
      s\<lparr>mbuf_free_trace := tr0\<rparr>\<lparr>mbuf_free_trace := tr\<rparr>"
    using Cons.IH by blast
  have "fold (\<lambda>j. MBufRawPacket_delete (arr j)) (a # al) s = s\<lparr>mbuf_free_trace := tr\<rparr>"
    by (simp add: a b)
  then show ?case by blast
qed

lemma sendPackets_pkt_handoff:
  assumes "m_DeviceOpened s" and "m_Device s = Some h"
    and "\<forall>k<unat n. m_RawPacket (parr k) \<noteq> None"
    and "\<forall>j<conversions_arr parr (unat n). init_reply s (init_trace s + j) \<noteq> None"
  shows "\<exists>sent parr' slots s'. sendPackets_pkt parr n s = Inr (sent, parr', slots, s') \<and>
           unat sent \<le> unat n \<and>
           (\<forall>k<unat n. m_FreeMbuf (slots k) = (unat sent \<le> k)) \<and>
           (\<forall>k<unat n. \<forall>p. m_RawPacket (parr k) = Some (MBUFRAWPACKET p) \<longrightarrow>
              m_RawPacket (parr' k) = Some (MBUFRAWPACKET (setFreeMbuf (unat sent \<le> k) p)))"
proof -
  have raw: "\<forall>k. 0 \<le> k \<and> k < unat n \<longrightarrow> m_RawPacket (parr k) \<noteq> None"
    using assms(3) by simp
  from sendPackets_pkt_prepare_ok [OF assms(4) [unfolded conversions_arr_def] raw, where arr = "\<lambda>i. MBufRawPacket_new" and al = "[]"]
  obtain arr' al s1 where
    prep: "sendPackets_pkt_prepare 0 (unat n) parr (\<lambda>i. MBufRawPacket_new) [] s =
             Inr (True, arr', al, s1)"
    and f: "m_Device s1 = m_Device s" "tx_reply s1 = tx_reply s" "tx_trace s1 = tx_trace s"
    and nat: "\<forall>k. 0 \<le> k \<and> k < unat n \<longrightarrow>
                (\<forall>p. m_RawPacket (parr k) = Some (MBUFRAWPACKET p) \<longrightarrow> arr' k = p)"
    by blast
  define r where "r = min (unat n) (tx_reply s1 (length (tx_trace s1)))"
  have u: "unat (of_nat r :: 16 word) = r"
    by (rule tx_count [of r "unat n"]) (simp_all add: r_def unat16_bound)
  have dev: "m_Device s1 = Some h" using f assms(2) by simp
  define marked where "marked = sendPackets_mark_loop 0 (unat n) (of_nat r) arr'"
  have "\<exists>s'. sendPackets_pkt parr n s =
      Inr (of_nat r,
           (\<lambda>i. if i < unat n then
                  (case m_RawPacket (parr i) of
                     Some (MBUFRAWPACKET p) \<Rightarrow>
                       (parr i)\<lparr>m_RawPacket := Some (MBUFRAWPACKET (marked i))\<rparr>
                   | _ \<Rightarrow> parr i)
                else parr i),
           marked, s')"
    unfolding marked_def r_def using assms(1) prep
    by (simp add: sendPackets_pkt_def tx_burst_live [OF dev] Let_def)
  moreover have "r \<le> unat n" by (simp add: r_def)
  moreover have "\<forall>k<unat n. marked k = setFreeMbuf (r \<le> k) (arr' k)"
    by (simp add: marked_def sendPackets_mark_loop_eq u)
  ultimately show ?thesis
    using nat by (auto simp add: u)
qed


lemma sendPackets_rvec_prepare_ok:
  assumes "\<forall>j<length (filter foreign rs). init_reply s (init_trace s + j) \<noteq> None"
    and "unat pos + length rs \<le> 65536"
  shows "\<exists>arr' al' ac' s'. sendPackets_rvec_prepare rs pos arr al ac s = (True, arr', al', ac', s') \<and>
           m_Device s' = m_Device s \<and> tx_reply s' = tx_reply s \<and> tx_trace s' = tx_trace s \<and>
           (\<forall>k<length rs. \<forall>p. rs ! k = MBUFRAWPACKET p \<longrightarrow> arr' (unat pos + k) = p) \<and>
           (\<forall>j. \<not> (unat pos \<le> j \<and> j < unat pos + length rs) \<longrightarrow> arr' j = arr j)"
  using assms
proof (induction rs arbitrary: pos arr al ac s)
  case Nil
  then show ?case by simp
next
  case (Cons r rs)
  have bound: "unat (pos + 1) + length rs \<le> 65536"
  proof (cases "unat pos < 65535")
    case True
    then have "unat (pos + 1) = Suc (unat pos)" by (rule unat_succ16)
    with Cons.prems(2) show ?thesis by simp
  next
    case False
    from Cons.prems(2) have "unat pos + Suc (length rs) \<le> 65536" by simp
    with False have "length rs = 0" by arith
    then show ?thesis using unat16_bound [of "pos + 1"] by simp
  qed
  have step: "rs \<noteq> [] \<Longrightarrow> unat (pos + 1) = Suc (unat pos)"
  proof -
    assume "rs \<noteq> []"
    then have l: "1 \<le> length rs" by (cases rs) simp_all
    from Cons.prems(2) have "unat pos + Suc (length rs) \<le> 65536" by simp
    with l have "unat pos < 65535" by arith
    then show ?thesis by (rule unat_succ16)
  qed
  have outside: "\<not> (unat (pos + 1) \<le> unat pos \<and> unat pos < unat (pos + 1) + length rs)"
  proof (cases "rs = []")
    case True
    then show ?thesis by simp
  next
    case False
    from step [OF this] show ?thesis by simp
  qed
  have shrink: "\<And>j. \<not> (unat pos \<le> j \<and> j < unat pos + length (r # rs)) \<Longrightarrow>
                  \<not> (unat (pos + 1) \<le> j \<and> j < unat (pos + 1) + length rs) \<and> j \<noteq> unat pos"
  proof (cases "rs = []")
    case True
    fix j assume "\<not> (unat pos \<le> j \<and> j < unat pos + length (r # rs))"
    with True show "\<not> (unat (pos + 1) \<le> j \<and> j < unat (pos + 1) + length rs) \<and> j \<noteq> unat pos"
      by auto
  next
    case False
    fix j assume "\<not> (unat pos \<le> j \<and> j < unat pos + length (r # rs))"
    with step [OF False]
    show "\<not> (unat (pos + 1) \<le> j \<and> j < unat (pos + 1) + length rs) \<and> j \<noteq> unat pos"
      by auto
  qed
  show ?case
  proof (cases r)
    case (MBUFRAWPACKET p)
    from Cons.prems(1) have conv: "\<forall>j<length (filter foreign rs).
             init_reply s (init_trace s + j) \<noteq> None"
      by (simp add: MBUFRAWPACKET foreign_simps)
    from Cons.IH [OF conv bound]
    obtain arr' al' ac' s' where
      r: "sendPackets_rvec_prepare rs (pos + 1) (arr(unat pos := p)) al ac s = (True, arr', al', ac', s')"
      and f: "m_Device s' = m_Device s" "tx_reply s' = tx_reply s" "tx_trace s' = tx_trace s"
      and nat: "\<forall>k<length rs. \<forall>q. rs ! k = MBUFRAWPACKET q \<longrightarrow> arr' (unat (pos + 1) + k) = q"
      and old: "\<forall>j. \<not> (unat (pos + 1) \<le> j \<and> j < unat (pos + 1) + length rs) \<longrightarrow>
                  arr' j = (arr(unat pos := p)) j"
      by blast
    have "sendPackets_rvec_prepare (r # rs) pos arr al ac s = (True, arr', al', ac', s')"
      using MBUFRAWPACKET r by simp
    moreover have "\<forall>k<length (r # rs). \<forall>q. (r # rs) ! k = MBUFRAWPACKET q \<longrightarrow> arr' (unat pos + k) = q"
    proof (intro allI impI)
      fix k q
      assume k: "k < length (r # rs)" and q: "(r # rs) ! k = MBUFRAWPACKET q"
      show "arr' (unat pos + k) = q"
      proof (cases k)
        case 0
        with q MBUFRAWPACKET have "q = p" by simp
        moreover have "arr' (unat pos) = p" using old outside by simp
        ultimately show ?thesis using 0 by simp
      next
        case (Suc k')
        with k have k': "k' < length rs" by simp
        then have "rs \<noteq> []" by auto
        from step [OF this] have u: "unat (pos + 1) = Suc (unat pos)" .
        from q Suc have "rs ! k' = MBUFRAWPACKET q" by simp
        with nat k' have "arr' (unat (pos + 1) + k') = q" by blast
        with u Suc show ?thesis by simp
      qed
    qed
    moreover have "\<forall>j. \<not> (unat pos \<le> j \<and> j < unat pos + length (r # rs)) \<longrightarrow> arr' j = arr j"
    proof (intro allI impI)
      fix j assume "\<not> (unat pos \<le> j \<and> j < unat pos + length (r # rs))"
      from shrink [OF this] old show "arr' j = arr j" by simp
    qed
    ultimately show ?thesis using f by blast
  next
    case (RAWPACKET rawData)
    from Cons.prems(1) have all: "\<forall>j<Suc (length (filter foreign rs)).
             init_reply s (init_trace s + j) \<noteq> None"
      by (simp add: RAWPACKET foreign_simps)
    then have "init_reply s (init_trace s + 0) \<noteq> None" by blast
    then have "init_reply s (init_trace s) \<noteq> None" by simp
    from initFromRawPacket_ok [OF this] obtain pkt where
      ini: "initFromRawPacket rawData MBufRawPacket_new s =
              (True, pkt, s\<lparr>init_trace := Suc (init_trace s)\<rparr>)"
      by blast
    define s1 where "s1 = s\<lparr>init_trace := Suc (init_trace s)\<rparr>"
    have s1: "\<forall>j<length (filter foreign rs). init_reply s1 (init_trace s1 + j) \<noteq> None"
    proof (intro allI impI)
      fix j assume "j < length (filter foreign rs)"
      then have "Suc j < Suc (length (filter foreign rs))" by simp
      with all have "init_reply s (init_trace s + Suc j) \<noteq> None" by blast
      then show "init_reply s1 (init_trace s1 + j) \<noteq> None" by (simp add: s1_def)
    qed
    from Cons.IH [OF s1 bound]
    obtain arr' al' ac' s' where
      r: "sendPackets_rvec_prepare rs (pos + 1) (arr(unat pos := pkt))
            (al(unat ac := unat pos)) (ac + 1) s1 = (True, arr', al', ac', s')"
      and f: "m_Device s' = m_Device s1" "tx_reply s' = tx_reply s1" "tx_trace s' = tx_trace s1"
      and nat: "\<forall>k<length rs. \<forall>q. rs ! k = MBUFRAWPACKET q \<longrightarrow> arr' (unat (pos + 1) + k) = q"
      and old: "\<forall>j. \<not> (unat (pos + 1) \<le> j \<and> j < unat (pos + 1) + length rs) \<longrightarrow>
                  arr' j = (arr(unat pos := pkt)) j"
      by blast
    have "sendPackets_rvec_prepare (r # rs) pos arr al ac s = (True, arr', al', ac', s')"
      using RAWPACKET r ini by (simp add: s1_def)
    moreover have "\<forall>k<length (r # rs). \<forall>q. (r # rs) ! k = MBUFRAWPACKET q \<longrightarrow> arr' (unat pos + k) = q"
    proof (intro allI impI)
      fix k q
      assume k: "k < length (r # rs)" and q: "(r # rs) ! k = MBUFRAWPACKET q"
      show "arr' (unat pos + k) = q"
      proof (cases k)
        case 0
        with q RAWPACKET show ?thesis by simp
      next
        case (Suc k')
        with k have k': "k' < length rs" by simp
        then have "rs \<noteq> []" by auto
        from step [OF this] have u: "unat (pos + 1) = Suc (unat pos)" .
        from q Suc have "rs ! k' = MBUFRAWPACKET q" by simp
        with nat k' have "arr' (unat (pos + 1) + k') = q" by blast
        with u Suc show ?thesis by simp
      qed
    qed
    moreover have "\<forall>j. \<not> (unat pos \<le> j \<and> j < unat pos + length (r # rs)) \<longrightarrow> arr' j = arr j"
    proof (intro allI impI)
      fix j assume "\<not> (unat pos \<le> j \<and> j < unat pos + length (r # rs))"
      from shrink [OF this] old show "arr' j = arr j" by simp
    qed
    moreover have "m_Device s' = m_Device s" "tx_reply s' = tx_reply s" "tx_trace s' = tx_trace s"
      using f by (simp_all add: s1_def)
    ultimately show ?thesis by blast
  qed
qed

lemma sendPackets_rvec_handoff:
  assumes "m_DeviceOpened s" and "m_Device s = Some h" and "length vec < 65536"
    and "\<forall>j<conversions_vec vec. init_reply s (init_trace s + j) \<noteq> None"
  shows "\<exists>sent vec' slots s'. sendPackets_rvec vec s = Some (Inr (sent, vec', slots, s')) \<and>
           unat sent \<le> length vec \<and>
           (\<forall>k<length vec. m_FreeMbuf (slots k) = (unat sent \<le> k)) \<and>
           (\<forall>k<length vec. \<forall>p. vec ! k = MBUFRAWPACKET p \<longrightarrow>
              vec' ! k = MBUFRAWPACKET (setFreeMbuf (unat sent \<le> k) p))"
proof -
  have b: "unat (0 :: 16 word) + length vec \<le> 65536" using assms(3) by simp
  from sendPackets_rvec_prepare_ok [OF assms(4) [unfolded conversions_vec_def] b, where arr = "\<lambda>i. MBufRawPacket_new"
         and al = "\<lambda>i. 0" and ac = 0]
  obtain arr' al ac s1 where
    prep: "sendPackets_rvec_prepare vec 0 (\<lambda>i. MBufRawPacket_new) (\<lambda>i. 0) 0 s =
             (True, arr', al, ac, s1)"
    and f: "m_Device s1 = m_Device s" "tx_reply s1 = tx_reply s" "tx_trace s1 = tx_trace s"
    and nat: "\<forall>k<length vec. \<forall>p. vec ! k = MBUFRAWPACKET p \<longrightarrow> arr' (unat (0 :: 16 word) + k) = p"
    by blast
  define r where "r = min (length vec) (tx_reply s1 (length (tx_trace s1)))"
  have u: "unat (of_nat r :: 16 word) = r"
    by (rule tx_count [of r "length vec"]) (simp_all add: r_def assms(3))
  have m: "length vec mod 4294967296 = length vec"
    using assms(3) by simp
  have dev: "m_Device s1 = Some h" using f assms(2) by simp
  define marked where
    "marked = (\<lambda>k. if unat (0 :: 16 word) \<le> k \<and> k < length vec
                   then setFreeMbuf (unat (of_nat r :: 16 word) \<le> k) (arr' k) else arr' k)"
  have mark: "sendPackets_rvec_mark 0 (length vec) (of_nat r) arr' = Some marked"
    unfolding marked_def by (rule sendPackets_rvec_mark_eq) (simp_all add: assms(3))
  have "\<exists>s'. sendPackets_rvec vec s =
      Some (Inr (of_nat r,
                 map (\<lambda>k. case vec ! k of
                             MBUFRAWPACKET p \<Rightarrow> MBUFRAWPACKET (marked (k mod 2 ^ 16))
                           | RAWPACKET rawData \<Rightarrow> RAWPACKET rawData)
                     [0..<length vec],
                 marked, s'))"
    using assms(1) prep mark [unfolded r_def]
    by (simp add: sendPackets_rvec_def tx_burst_live [OF dev] Let_def m r_def)
  moreover have "r \<le> length vec" by (simp add: r_def)
  moreover have "\<forall>k<length vec. marked k = setFreeMbuf (r \<le> k) (arr' k)"
    by (simp add: marked_def u)
  moreover have "\<forall>k<length vec. k mod 65536 = k" using assms(3) by simp
  ultimately show ?thesis
    using nat by (auto simp add: u)
qed


text \<open>A conversion that fails ends the preparation: nothing is sent and nothing is marked.\<close>

lemma initFromRawPacket_fails:
  "init_reply s (init_trace s) = None \<Longrightarrow>
     initFromRawPacket rawData MBufRawPacket_new s =
       (False, MBufRawPacket_new, s\<lparr>init_trace := Suc (init_trace s)\<rparr>)"
  by (simp add: initFromRawPacket_def)

lemma MBufRawPacket_delete_new [simp]: "MBufRawPacket_delete MBufRawPacket_new s = s"
  by (simp add: MBufRawPacket_delete_def MBufRawPacket_new_def)

lemma sendPackets_pkt_prepare_fails:
  assumes "\<forall>k. i \<le> k \<and> k < n \<longrightarrow> m_RawPacket (parr k) \<noteq> None"
    and "\<exists>j<length (filter (\<lambda>k. converts (parr k)) [i..<n]).
           init_reply s (init_trace s + j) = None"
  shows "\<exists>arr' al' s'. sendPackets_pkt_prepare i n parr arr al s = Inr (False, arr', al', s') \<and>
           tx_trace s' = tx_trace s"
  using assms
proof (induction m \<equiv> "n - i" arbitrary: i arr al s)
  case 0
  then have "[i..<n] = []" by simp
  with "0.prems"(2) show ?case by simp
next
  case (Suc m)
  then have lt: "i < n" by simp
  have m: "m = n - Suc i" using Suc.hyps(2) by simp
  have rest: "\<forall>k. Suc i \<le> k \<and> k < n \<longrightarrow> m_RawPacket (parr k) \<noteq> None"
    using Suc.prems(1) by simp
  from Suc.prems(1) lt obtain raw where raw: "m_RawPacket (parr i) = Some raw" by auto
  have up: "[i..<n] = i # [Suc i..<n]" using lt by (rule upt_conv_Cons)
  show ?case
  proof (cases raw)
    case (MBUFRAWPACKET p)
    have "\<not> converts (parr i)" using raw MBUFRAWPACKET by (simp add: converts_def foreign_simps)
    with Suc.prems(2) have fail: "\<exists>j<length (filter (\<lambda>k. converts (parr k)) [Suc i..<n]).
           init_reply s (init_trace s + j) = None"
      by (simp add: up)
    from Suc.hyps(1) [OF m rest fail]
    obtain arr' al' s' where
      "sendPackets_pkt_prepare (Suc i) n parr (arr(i := p)) al s = Inr (False, arr', al', s')"
      "tx_trace s' = tx_trace s"
      by blast
    then have "sendPackets_pkt_prepare i n parr arr al s = Inr (False, arr', al', s') \<and>
        tx_trace s' = tx_trace s"
      using lt raw MBUFRAWPACKET by (subst sendPackets_pkt_prepare.simps) simp
    then show ?thesis by blast
  next
    case (RAWPACKET rawData)
    have cv: "converts (parr i)" using raw RAWPACKET by (simp add: converts_def foreign_simps)
    show ?thesis
    proof (cases "init_reply s (init_trace s) = None")
      case True
      have "sendPackets_pkt_prepare i n parr arr al s =
          Inr (False, arr, al, s\<lparr>init_trace := Suc (init_trace s)\<rparr>)"
        using lt raw RAWPACKET initFromRawPacket_fails [OF True]
        by (subst sendPackets_pkt_prepare.simps) simp
      then show ?thesis by simp
    next
      case False
      from initFromRawPacket_ok [OF False] obtain pkt where
        ini: "initFromRawPacket rawData MBufRawPacket_new s =
                (True, pkt, s\<lparr>init_trace := Suc (init_trace s)\<rparr>)"
        by blast
      define s1 where "s1 = s\<lparr>init_trace := Suc (init_trace s)\<rparr>"
      from Suc.prems(2) cv obtain j where
        j: "j < Suc (length (filter (\<lambda>k. converts (parr k)) [Suc i..<n]))"
          "init_reply s (init_trace s + j) = None"
        by (auto simp add: up)
      with False obtain j' where j': "j = Suc j'" by (cases j) simp_all
      with j have fail: "\<exists>j<length (filter (\<lambda>k. converts (parr k)) [Suc i..<n]).
           init_reply s1 (init_trace s1 + j) = None"
        by (auto simp add: s1_def)
      from Suc.hyps(1) [OF m rest fail]
      obtain arr' al' s' where
        "sendPackets_pkt_prepare (Suc i) n parr (arr(i := pkt)) (al @ [i]) s1 =
           Inr (False, arr', al', s')"
        "tx_trace s' = tx_trace s1"
        by blast
      then have "sendPackets_pkt_prepare i n parr arr al s = Inr (False, arr', al', s') \<and>
          tx_trace s' = tx_trace s"
        using lt raw RAWPACKET ini
        by (subst sendPackets_pkt_prepare.simps) (simp add: s1_def)
      then show ?thesis by blast
    qed
  qed
qed

lemma sendPackets_pkt_conversion_fails:
  assumes "m_DeviceOpened s"
    and "\<forall>k<unat n. m_RawPacket (parr k) \<noteq> None"
    and "\<exists>j<conversions_arr parr (unat n). init_reply s (init_trace s + j) = None"
  shows "\<exists>slots s'. sendPackets_pkt parr n s = Inr (0, parr, slots, s') \<and>
           tx_trace s' = tx_trace s"
proof -
  have raw: "\<forall>k. 0 \<le> k \<and> k < unat n \<longrightarrow> m_RawPacket (parr k) \<noteq> None"
    using assms(2) by simp
  from sendPackets_pkt_prepare_fails [OF raw assms(3) [unfolded conversions_arr_def],
      where arr = "\<lambda>i. MBufRawPacket_new" and al = "[]"]
  obtain arr' al s1 where
    prep: "sendPackets_pkt_prepare 0 (unat n) parr (\<lambda>i. MBufRawPacket_new) [] s =
             Inr (False, arr', al, s1)"
    and f: "tx_trace s1 = tx_trace s"
    by blast
  obtain tr where d: "delete_allocated arr' al s1 = s1\<lparr>mbuf_free_trace := tr\<rparr>"
    using delete_allocated_frame by blast
  have "sendPackets_pkt parr n s = Inr (0, parr, arr', s1\<lparr>mbuf_free_trace := tr\<rparr>)"
    using assms(1) prep by (simp add: sendPackets_pkt_def d)
  with f show ?thesis by simp
qed

lemma sendPackets_rvec_prepare_fails:
  assumes "\<exists>j<length (filter foreign rs). init_reply s (init_trace s + j) = None"
  shows "\<exists>arr' al' ac' s'. sendPackets_rvec_prepare rs pos arr al ac s = (False, arr', al', ac', s') \<and>
           tx_trace s' = tx_trace s"
  using assms
proof (induction rs arbitrary: pos arr al ac s)
  case Nil
  then show ?case by simp
next
  case (Cons r rs)
  show ?case
  proof (cases r)
    case (MBUFRAWPACKET p)
    from Cons.prems have fail: "\<exists>j<length (filter foreign rs). init_reply s (init_trace s + j) = None"
      by (simp add: MBUFRAWPACKET foreign_simps)
    from Cons.IH [OF fail] MBUFRAWPACKET show ?thesis by simp
  next
    case (RAWPACKET rawData)
    show ?thesis
    proof (cases "init_reply s (init_trace s) = None")
      case True
      with RAWPACKET initFromRawPacket_fails [OF True] show ?thesis by simp
    next
      case False
      from initFromRawPacket_ok [OF False] obtain pkt where
        ini: "initFromRawPacket rawData MBufRawPacket_new s =
                (True, pkt, s\<lparr>init_trace := Suc (init_trace s)\<rparr>)"
        by blast
      define s1 where "s1 = s\<lparr>init_trace := Suc (init_trace s)\<rparr>"
      from Cons.prems obtain j where
        j: "j < Suc (length (filter foreign rs))" "init_reply s (init_trace s + j) = None"
        by (auto simp add: RAWPACKET foreign_simps)
      with False obtain j' where j': "j = Suc j'" by (cases j) simp_all
      with j have fail: "\<exists>j<length (filter foreign rs). init_reply s1 (init_trace s1 + j) = None"
        by (auto simp add: s1_def)
      from Cons.IH [OF fail]
      obtain arr' al' ac' s' where
        "sendPackets_rvec_prepare rs (pos + 1) (arr(unat pos := pkt))
            (al(unat ac := unat pos)) (ac + 1) s1 = (False, arr', al', ac', s')"
        "tx_trace s' = tx_trace s1"
        by blast
      then have "sendPackets_rvec_prepare (r # rs) pos arr al ac s = (False, arr', al', ac', s') \<and>
          tx_trace s' = tx_trace s"
        using RAWPACKET ini by (simp add: s1_def)
      then show ?thesis by blast
    qed
  qed
qed

lemma sendPackets_rvec_conversion_fails:
  assumes "m_DeviceOpened s"
    and "\<exists>j<conversions_vec vec. init_reply s (init_trace s + j) = None"
  shows "\<exists>slots s'. sendPackets_rvec vec s = Some (Inr (0, vec, slots, s')) \<and>
           tx_trace s' = tx_trace s"
proof -
  from sendPackets_rvec_prepare_fails [OF assms(2) [unfolded conversions_vec_def],
      where arr = "\<lambda>i. MBufRawPacket_new" and al = "\<lambda>i. 0" and ac = 0 and pos = 0]
  obtain arr' al ac s1 where
    prep: "sendPackets_rvec_prepare vec 0 (\<lambda>i. MBufRawPacket_new) (\<lambda>i. 0) 0 s =
             (False, arr', al, ac, s1)"
    and f: "tx_trace s1 = tx_trace s"
    by blast
  obtain tr where d: "delete_allocated arr' (map al [0..<unat ac]) s1 = s1\<lparr>mbuf_free_trace := tr\<rparr>"
    using delete_allocated_frame by blast
  have "sendPackets_rvec vec s = Some (Inr (0, vec, arr', s1\<lparr>mbuf_free_trace := tr\<rparr>))"
    using assms(1) prep by (simp add: sendPackets_rvec_def d Let_def)
  with f show ?thesis by simp
qed

lemma opened0_pool:
  "init_reply opened0 = (\<lambda>k. Some (100 + k))" "init_trace opened0 = 0" "tx_trace opened0 = []"
  by (simp_all add: world_defs)

text \<open>
  Claim C1 (handoff law), as amended. On an opened device:
  \<^item> With a live engine handle, a call of \<open>sendPackets\<close> in which every packet of the array
    holds a raw packet, no conversion of a foreign item fails, and the vector has fewer
    than \<open>2^16\<close> items, returns a count \<open>sent\<close> of at most \<open>n\<close>, and the slot at each index \<open>k\<close> of
    \<open>[0, n)\<close> owns its buffer exactly when \<open>sent \<le> k\<close>: the slots of \<open>[0, sent)\<close> are
    engine-owned, those of \<open>[sent, n)\<close> caller-owned. This holds for the four variants: the
    array and the vector of engine-native slots, and the array of packets and the vector
    of raw packets, where the slot of a foreign item is the one the call allocates and
    the caller's engine-native slots come back with the same mark.
  \<^item> When a conversion fails, the converting variants return 0, the caller's packets and
    raw packets come back as they were, so that no slot is marked, and the engine is not
    asked to send.
  The conversions of a call read the pool from \<open>init_trace s\<close> on, one reply per foreign
  item, and the first reply that is \<open>None\<close> is the conversion that fails.
\<close>

theorem sendPackets_handoff:
  "(m_DeviceOpened s \<and> m_Device s = Some h \<longrightarrow>
     (\<exists>sent arr' s'. sendPackets_arr arr n s = Inr (sent, arr', s') \<and>
        unat sent \<le> unat n \<and>
        (\<forall>k<unat n. m_FreeMbuf (arr' k) = (unat sent \<le> k))) \<and>
     (length mvec < 65536 \<longrightarrow>
        (\<exists>sent vec' s'. sendPackets_mvec mvec s = Inr (sent, vec', s') \<and>
           unat sent \<le> length mvec \<and> length vec' = length mvec \<and>
           (\<forall>k<length mvec. m_FreeMbuf (vec' ! k) = (unat sent \<le> k)))) \<and>
     ((\<forall>k<unat n. m_RawPacket (parr k) \<noteq> None) \<and>
      (\<forall>j<conversions_arr parr (unat n). init_reply s (init_trace s + j) \<noteq> None) \<longrightarrow>
        (\<exists>sent parr' slots s'. sendPackets_pkt parr n s = Inr (sent, parr', slots, s') \<and>
           unat sent \<le> unat n \<and>
           (\<forall>k<unat n. m_FreeMbuf (slots k) = (unat sent \<le> k)) \<and>
           (\<forall>k<unat n. \<forall>p. m_RawPacket (parr k) = Some (MBUFRAWPACKET p) \<longrightarrow>
              m_RawPacket (parr' k) = Some (MBUFRAWPACKET (setFreeMbuf (unat sent \<le> k) p))))) \<and>
     (length rvec < 65536 \<and>
      (\<forall>j<conversions_vec rvec. init_reply s (init_trace s + j) \<noteq> None) \<longrightarrow>
        (\<exists>sent vec' slots s'. sendPackets_rvec rvec s = Some (Inr (sent, vec', slots, s')) \<and>
           unat sent \<le> length rvec \<and>
           (\<forall>k<length rvec. m_FreeMbuf (slots k) = (unat sent \<le> k)) \<and>
           (\<forall>k<length rvec. \<forall>p. rvec ! k = MBUFRAWPACKET p \<longrightarrow>
              vec' ! k = MBUFRAWPACKET (setFreeMbuf (unat sent \<le> k) p))))) \<and>
   (m_DeviceOpened s \<longrightarrow>
     ((\<forall>k<unat n. m_RawPacket (parr k) \<noteq> None) \<and>
      (\<exists>j<conversions_arr parr (unat n). init_reply s (init_trace s + j) = None) \<longrightarrow>
        (\<exists>slots s'. sendPackets_pkt parr n s = Inr (0, parr, slots, s') \<and>
           tx_trace s' = tx_trace s)) \<and>
     ((\<exists>j<conversions_vec rvec. init_reply s (init_trace s + j) = None) \<longrightarrow>
        (\<exists>slots s'. sendPackets_rvec rvec s = Some (Inr (0, rvec, slots, s')) \<and>
           tx_trace s' = tx_trace s)))"
proof (intro impI conjI)
  assume o: "m_DeviceOpened s \<and> m_Device s = Some h"
  then have o1: "m_DeviceOpened s" and o2: "m_Device s = Some h" by simp_all
  from sendPackets_arr_handoff [OF o1 o2, of arr n]
  show "\<exists>sent arr' s'. sendPackets_arr arr n s = Inr (sent, arr', s') \<and>
        unat sent \<le> unat n \<and>
        (\<forall>k<unat n. m_FreeMbuf (arr' k) = (unat sent \<le> k))"
    by blast
next
  assume o: "m_DeviceOpened s \<and> m_Device s = Some h" and l: "length mvec < 65536"
  then have o1: "m_DeviceOpened s" and o2: "m_Device s = Some h" by simp_all
  from sendPackets_mvec_handoff [OF o1 o2 l]
  show "\<exists>sent vec' s'. sendPackets_mvec mvec s = Inr (sent, vec', s') \<and>
           unat sent \<le> length mvec \<and> length vec' = length mvec \<and>
           (\<forall>k<length mvec. m_FreeMbuf (vec' ! k) = (unat sent \<le> k))"
    by blast
next
  assume o: "m_DeviceOpened s \<and> m_Device s = Some h"
    and c: "(\<forall>k<unat n. m_RawPacket (parr k) \<noteq> None) \<and>
      (\<forall>j<conversions_arr parr (unat n). init_reply s (init_trace s + j) \<noteq> None)"
  then have o1: "m_DeviceOpened s" and o2: "m_Device s = Some h"
    and c1: "\<forall>k<unat n. m_RawPacket (parr k) \<noteq> None"
    and c2: "\<forall>j<conversions_arr parr (unat n). init_reply s (init_trace s + j) \<noteq> None"
    by simp_all
  show "\<exists>sent parr' slots s'. sendPackets_pkt parr n s = Inr (sent, parr', slots, s') \<and>
           unat sent \<le> unat n \<and>
           (\<forall>k<unat n. m_FreeMbuf (slots k) = (unat sent \<le> k)) \<and>
           (\<forall>k<unat n. \<forall>p. m_RawPacket (parr k) = Some (MBUFRAWPACKET p) \<longrightarrow>
              m_RawPacket (parr' k) = Some (MBUFRAWPACKET (setFreeMbuf (unat sent \<le> k) p)))"
    by (rule sendPackets_pkt_handoff [OF o1 o2 c1 c2])
next
  assume o: "m_DeviceOpened s \<and> m_Device s = Some h"
    and c: "length rvec < 65536 \<and>
      (\<forall>j<conversions_vec rvec. init_reply s (init_trace s + j) \<noteq> None)"
  then have o1: "m_DeviceOpened s" and o2: "m_Device s = Some h"
    and c1: "length rvec < 65536"
    and c2: "\<forall>j<conversions_vec rvec. init_reply s (init_trace s + j) \<noteq> None"
    by simp_all
  show "\<exists>sent vec' slots s'. sendPackets_rvec rvec s = Some (Inr (sent, vec', slots, s')) \<and>
           unat sent \<le> length rvec \<and>
           (\<forall>k<length rvec. m_FreeMbuf (slots k) = (unat sent \<le> k)) \<and>
           (\<forall>k<length rvec. \<forall>p. rvec ! k = MBUFRAWPACKET p \<longrightarrow>
              vec' ! k = MBUFRAWPACKET (setFreeMbuf (unat sent \<le> k) p))"
    by (rule sendPackets_rvec_handoff [OF o1 o2 c1 c2])
next
  assume o: "m_DeviceOpened s"
    and c: "(\<forall>k<unat n. m_RawPacket (parr k) \<noteq> None) \<and>
      (\<exists>j<conversions_arr parr (unat n). init_reply s (init_trace s + j) = None)"
  then have c1: "\<forall>k<unat n. m_RawPacket (parr k) \<noteq> None"
    and c2: "\<exists>j<conversions_arr parr (unat n). init_reply s (init_trace s + j) = None"
    by simp_all
  show "\<exists>slots s'. sendPackets_pkt parr n s = Inr (0, parr, slots, s') \<and>
           tx_trace s' = tx_trace s"
    by (rule sendPackets_pkt_conversion_fails [OF o c1 c2])
next
  assume o: "m_DeviceOpened s"
    and c: "\<exists>j<conversions_vec rvec. init_reply s (init_trace s + j) = None"
  show "\<exists>slots s'. sendPackets_rvec rvec s = Some (Inr (0, rvec, slots, s')) \<and>
           tx_trace s' = tx_trace s"
    by (rule sendPackets_rvec_conversion_fails [OF o c])
qed

text \<open>
  The theorem at work. On the opened device whose engine takes one buffer of a burst,
  the handle is live, the vector of one engine-native slot and one foreign item has one
  conversion, which the pool serves, and so has the array of the two packets: each
  variant returns its count and marks by the prefix rule. On the opened device whose
  pool has no buffer, the one conversion fails, and both converting variants return 0
  with the caller's items as they were.
\<close>

theorem sendPackets_handoff_witness:
  "m_DeviceOpened onesent0 \<and> m_Device onesent0 = Some 1 \<and>
   conversions_vec mixed0 = 1 \<and> conversions_arr packets0 (unat (2 :: 16 word)) = 1 \<and>
   init_reply onesent0 (init_trace onesent0) = Some 100 \<and>
   m_RawPacket (packets0 0) \<noteq> None \<and> m_RawPacket (packets0 1) \<noteq> None \<and>
   (\<exists>sent arr' s'. sendPackets_arr (\<lambda>i. native0) 2 onesent0 = Inr (sent, arr', s') \<and>
      unat sent \<le> unat (2 :: 16 word) \<and>
      (\<forall>k<unat (2 :: 16 word). m_FreeMbuf (arr' k) = (unat sent \<le> k))) \<and>
   (\<exists>sent vec' s'. sendPackets_mvec [native0, native0] onesent0 = Inr (sent, vec', s') \<and>
      unat sent \<le> length [native0, native0] \<and> length vec' = length [native0, native0] \<and>
      (\<forall>k<length [native0, native0]. m_FreeMbuf (vec' ! k) = (unat sent \<le> k))) \<and>
   (\<exists>sent parr' slots s'. sendPackets_pkt packets0 2 onesent0 = Inr (sent, parr', slots, s') \<and>
      unat sent \<le> unat (2 :: 16 word) \<and>
      (\<forall>k<unat (2 :: 16 word). m_FreeMbuf (slots k) = (unat sent \<le> k)) \<and>
      (\<forall>k<unat (2 :: 16 word). \<forall>p. m_RawPacket (packets0 k) = Some (MBUFRAWPACKET p) \<longrightarrow>
         m_RawPacket (parr' k) = Some (MBUFRAWPACKET (setFreeMbuf (unat sent \<le> k) p)))) \<and>
   (\<exists>sent vec' slots s'. sendPackets_rvec mixed0 onesent0 = Some (Inr (sent, vec', slots, s')) \<and>
      unat sent \<le> length mixed0 \<and>
      (\<forall>k<length mixed0. m_FreeMbuf (slots k) = (unat sent \<le> k)) \<and>
      (\<forall>k<length mixed0. \<forall>p. mixed0 ! k = MBUFRAWPACKET p \<longrightarrow>
         vec' ! k = MBUFRAWPACKET (setFreeMbuf (unat sent \<le> k) p))) \<and>
   m_DeviceOpened nopool0 \<and> init_reply nopool0 (init_trace nopool0) = None \<and>
   (\<exists>slots s'. sendPackets_pkt packets0 2 nopool0 = Inr (0, packets0, slots, s') \<and>
      tx_trace s' = tx_trace nopool0) \<and>
   (\<exists>slots s'. sendPackets_rvec mixed0 nopool0 = Some (Inr (0, mixed0, slots, s')) \<and>
      tx_trace s' = tx_trace nopool0)"
proof -
  have o: "m_DeviceOpened onesent0 \<and> m_Device onesent0 = Some 1"
    by (simp add: onesent0_def opened0_fields)
  have cv: "conversions_vec mixed0 = 1"
    by (simp add: conversions_vec_def mixed0_def foreign_simps)
  have up: "[0..<2] = [0, Suc 0]" by (simp add: upt_conv_Cons)
  have ca: "conversions_arr packets0 (unat (2 :: 16 word)) = 1"
    by (simp add: conversions_arr_def converts_def packets0_def foreign_simps up)
  have pool: "init_reply onesent0 (init_trace onesent0) = Some 100"
    by (simp add: onesent0_def opened0_pool)
  have raw: "m_RawPacket (packets0 0) \<noteq> None" "m_RawPacket (packets0 1) \<noteq> None"
    by (simp_all add: packets0_def)
  note all = sendPackets_handoff [where s = onesent0 and h = 1 and arr = "\<lambda>i. native0"
      and n = 2 and mvec = "[native0, native0]" and parr = packets0 and rvec = mixed0,
      THEN conjunct1, THEN mp, OF o]
  note a = all [THEN conjunct1]
  have lm: "length [native0, native0] < 65536" by simp
  note b = all [THEN conjunct2, THEN conjunct1, THEN mp, OF lm]
  have rawall: "\<forall>k<unat (2 :: 16 word). m_RawPacket (packets0 k) \<noteq> None"
    by (simp add: packets0_def)
  have hp: "(\<forall>k<unat (2 :: 16 word). m_RawPacket (packets0 k) \<noteq> None) \<and>
      (\<forall>j<conversions_arr packets0 (unat (2 :: 16 word)).
          init_reply onesent0 (init_trace onesent0 + j) \<noteq> None)"
    using pool ca by (simp add: packets0_def)
  note c = all [THEN conjunct2, THEN conjunct2, THEN conjunct1, THEN mp, OF hp]
  have lr: "length mixed0 < 65536" by (simp add: mixed0_def)
  have hr: "length mixed0 < 65536 \<and>
      (\<forall>j<conversions_vec mixed0. init_reply onesent0 (init_trace onesent0 + j) \<noteq> None)"
    using pool cv lr by simp
  note d = all [THEN conjunct2, THEN conjunct2, THEN conjunct2, THEN mp, OF hr]
  have no: "m_DeviceOpened nopool0" "init_reply nopool0 (init_trace nopool0) = None"
    by (simp_all add: nopool0_def opened0_fields)
  note fails = sendPackets_handoff [where s = nopool0 and n = 2 and parr = packets0
      and rvec = mixed0, THEN conjunct2, THEN mp, OF no(1)]
  have fp: "(\<forall>k<unat (2 :: 16 word). m_RawPacket (packets0 k) \<noteq> None) \<and>
      (\<exists>j<conversions_arr packets0 (unat (2 :: 16 word)).
          init_reply nopool0 (init_trace nopool0 + j) = None)"
    using no(2) ca rawall by simp
  note e = fails [THEN conjunct1, THEN mp, OF fp]
  have fr: "\<exists>j<conversions_vec mixed0. init_reply nopool0 (init_trace nopool0 + j) = None"
    using no(2) cv by simp
  note f = fails [THEN conjunct2, THEN mp, OF fr]
  from o cv ca pool raw a b c d no e f show ?thesis by (intro conjI) simp_all
qed

text \<open>
  Claim C1 as stated fails where a conversion fails. On the opened device whose pool has
  no buffer, the vector holds an engine-native slot that does not own its buffer and one
  foreign item. The conversion of the foreign item fails, the call leaves the loop before
  the engine is asked and before any slot is marked, and returns 0 with the vector as it
  was: the slot at index 0 of \<open>[sent, n) = [0, 2)\<close> still does not own its buffer, where the
  claim has it marked caller-owned.
\<close>

theorem sendPackets_conversion_failure_unmarked:
  "m_DeviceOpened nopool0 \<and> mixed0 ! 0 = MBUFRAWPACKET native0 \<and> \<not> m_FreeMbuf native0 \<and>
   map_option (map_sum id fst) (sendPackets_rvec mixed0 nopool0) = Some (Inr 0) \<and>
   map_option (map_sum id (fst \<circ> snd)) (sendPackets_rvec mixed0 nopool0) = Some (Inr mixed0)"
  by (simp add: nopool0_def opened0_fields opened0_pool mixed0_def native0_def
      sendPackets_rvec_def initFromRawPacket_def MBufRawPacket_delete_def MBufRawPacket_new_def
      delete_allocated_def Let_def)

end
